theory Spec2Isabelle
  imports Complex_Main
begin

section \<open>Tensors, views and the store\<close>

text \<open>The Python exceptions the two methods of \<open>Image\<close> can end in.\<close>

datatype error = ValueError | IndexError | RuntimeError | UnboundLocalError

text \<open>
  A tensor is its shape and the value at every index. A Python tensor object is a
  reference: the address of a tensor in the store, and per axis the offset and the length
  of the part it shows. Slicing makes such a reference (a view), it copies nothing.
\<close>

record 'a tensor =
  shape :: "nat list"
  item :: "nat list \<Rightarrow> 'a"

type_synonym 'a store = "'a tensor list"

record tref =
  base :: nat
  window :: "(nat \<times> nat) list"

record image =
  data :: nat
  dx :: "real list"

definition full :: "nat list \<Rightarrow> 'a \<Rightarrow> 'a tensor" where
  "full sh v = \<lparr>shape = sh, item = (\<lambda>idx. v)\<rparr>"

text \<open>Python's \<open>a[lo:hi]\<close> on an axis of length \<open>n\<close>: a negative bound counts from the
  end, both bounds are clamped, and a slice that ends before it starts is empty. The result
  is the offset and the length.\<close>

definition slice_index :: "int \<Rightarrow> nat \<Rightarrow> nat" where
  "slice_index x n = (if x < 0 then nat (max 0 (x + int n)) else min (nat x) n)"

definition py_slice :: "int \<Rightarrow> int \<Rightarrow> nat \<Rightarrow> nat \<times> nat" where
  "py_slice lo hi n = (slice_index lo n, slice_index hi n - slice_index lo n)"

text \<open>Python's \<open>a[i]\<close>: a negative index counts from the end, out of range raises.\<close>

definition py_index :: "int \<Rightarrow> nat \<Rightarrow> nat option" where
  "py_index i n =
     (if 0 \<le> i \<and> i < int n then Some (nat i)
      else if - int n \<le> i \<and> i < 0 then Some (nat (i + int n))
      else None)"

definition whole :: "nat list \<Rightarrow> (nat \<times> nat) list" where
  "whole sh = map (\<lambda>n. (0, n)) sh"

definition slice_tensor :: "(nat \<times> nat) list \<Rightarrow> 'a tensor \<Rightarrow> 'a tensor" where
  "slice_tensor w t =
     \<lparr>shape = map snd w, item = (\<lambda>idx. item t (map2 (\<lambda>(off, len) i. off + i) w idx))\<rparr>"

definition deref :: "'a store \<Rightarrow> tref \<Rightarrow> 'a tensor" where
  "deref s r = slice_tensor (window r) (s ! base r)"

text \<open>Assignment to a slice broadcasts the source: on every axis the source is as long
  as the target, or has length 1. Anything else is torch's RuntimeError.\<close>

definition broadcastable :: "nat list \<Rightarrow> nat list \<Rightarrow> bool" where
  "broadcastable src tgt = list_all2 (\<lambda>a b. a = b \<or> a = 1) src tgt"

definition in_window :: "(nat \<times> nat) list \<Rightarrow> nat list \<Rightarrow> bool" where
  "in_window w idx = list_all2 (\<lambda>(off, len) i. off \<le> i \<and> i < off + len) w idx"

definition bcast_index :: "nat list \<Rightarrow> nat list \<Rightarrow> nat list" where
  "bcast_index sh idx = map2 (\<lambda>n i. if n = 1 then 0 else i) sh idx"

definition assign_window :: "'a tensor \<Rightarrow> (nat \<times> nat) list \<Rightarrow> 'a tensor \<Rightarrow> 'a tensor option" where
  "assign_window t w src =
     (if broadcastable (shape src) (map snd w)
      then Some (t\<lparr>item := (\<lambda>idx. if in_window w idx
                                 then item src (bcast_index (shape src) (map2 (\<lambda>(off, len) i. i - off) w idx))
                                 else item t idx)\<rparr>)
      else None)"

section \<open>Image.crop\<close>

text \<open>\<open>int(x)\<close> on a float truncates toward zero.\<close>

definition py_int :: "real \<Rightarrow> int" where
  "py_int x = (if x < 0 then \<lceil>x\<rceil> else \<lfloor>x\<rfloor>)"

text \<open>The two tests the source repeats for every axis: how far the window
  \<open>[c - radius, c + radius]\<close> reaches below index 0 and beyond index \<open>n - 1\<close>.\<close>

definition pad_before :: "int \<Rightarrow> int \<Rightarrow> int" where
  "pad_before c radius = (if c - radius < 0 then radius - c else 0)"

definition pad_after :: "int \<Rightarrow> int \<Rightarrow> nat \<Rightarrow> int" where
  "pad_after c radius n = (if c + radius > int n - 1 then c + radius - (int n - 1) else 0)"

text \<open>The bounds \<open>c - rmd_before\<close> and \<open>c + rmd_after\<close> (the last index, inclusive) of
  the slice the source takes from \<open>data\<close> on one axis.\<close>

definition valid_low :: "int \<Rightarrow> int \<Rightarrow> int" where
  "valid_low c radius = c - (radius - pad_before c radius)"

definition valid_high :: "int \<Rightarrow> int \<Rightarrow> nat \<Rightarrow> int" where
  "valid_high c radius n = c + (radius - pad_after c radius n)"

text \<open>The padded patch: a new tensor of edge \<open>2 * radius + 1\<close> filled with \<open>value\<close>,
  into which the valid part is assigned. It lives at a fresh address of the store.\<close>

definition padded :: "'a store \<Rightarrow> nat list \<Rightarrow> (nat \<times> nat) list \<Rightarrow> 'a tensor \<Rightarrow> 'a \<Rightarrow> int list
    \<Rightarrow> (error + (tref \<times> int list)) \<times> 'a store" where
  "padded s sh w patch val padding =
     (case assign_window (full sh val) w patch of
        None \<Rightarrow> (Inl RuntimeError, s)
      | Some patch' \<Rightarrow> (Inr (\<lparr>base = length s, window = whole sh\<rparr>, padding), s @ [patch']))"

text \<open>
  The method, with the state of the store passed through. The center has one coordinate
  per spatial axis (the unpacking \<open>i,j,k = ...\<close> raises ValueError otherwise) and \<open>data\<close>
  is channels by spatial axes, as the class documents it (on a smaller rank \<open>shape[...]\<close>
  or the slicing raises IndexError; other ranks are not modelled further). With an
  \<open>n_dim\<close> other than 2 and 3 neither branch binds \<open>patch\<close>, and the \<open>return\<close> raises
  UnboundLocalError. Without padding the patch returned is a view of \<open>data\<close>.
\<close>

definition crop :: "image \<Rightarrow> real list \<Rightarrow> int \<Rightarrow> bool \<Rightarrow> 'a \<Rightarrow> int \<Rightarrow> 'a store
    \<Rightarrow> (error + (tref \<times> int list)) \<times> 'a store" where
  "crop self center radius pad val n_dim s =
     (if n_dim = 3 then
        (case map py_int center of
           [i, j, k] \<Rightarrow>
             (case shape (s ! data self) of
                [C, n0, n1, n2] \<Rightarrow>
                  (let zpad_btm = pad_after i radius n0;
                       zpad_top = pad_before i radius;
                       ypad_back = pad_after j radius n1;
                       ypad_front = pad_before j radius;
                       xpad_right = pad_after k radius n2;
                       xpad_left = pad_before k radius;
                       padding = [zpad_top, zpad_btm, ypad_front, ypad_back, xpad_left, xpad_right];
                       patch = \<lparr>base = data self,
                                window = [(0, C),
                                          py_slice (valid_low i radius) (valid_high i radius n0 + 1) n0,
                                          py_slice (valid_low j radius) (valid_high j radius n1 + 1) n1,
                                          py_slice (valid_low k radius) (valid_high k radius n2 + 1) n2]\<rparr>
                   in if pad then
                        (let patch_size = 2 * radius + 1 in
                         if patch_size < 0 then (Inl RuntimeError, s)
                         else padded s [C, nat patch_size, nat patch_size, nat patch_size]
                                [(0, C),
                                 py_slice zpad_top (patch_size - zpad_btm) (nat patch_size),
                                 py_slice ypad_front (patch_size - ypad_back) (nat patch_size),
                                 py_slice xpad_left (patch_size - xpad_right) (nat patch_size)]
                                (deref s patch) val padding)
                      else (Inr (patch, padding), s))
              | _ \<Rightarrow> (Inl IndexError, s))
         | _ \<Rightarrow> (Inl ValueError, s))
      else if n_dim = 2 then
        (case map py_int center of
           [i, j] \<Rightarrow>
             (case shape (s ! data self) of
                [C, n0, n1] \<Rightarrow>
                  (let ypad_back = pad_after i radius n0;
                       ypad_front = pad_before i radius;
                       xpad_right = pad_after j radius n1;
                       xpad_left = pad_before j radius;
                       padding = [ypad_front, ypad_back, xpad_left, xpad_right];
                       patch = \<lparr>base = data self,
                                window = [(0, C),
                                          py_slice (valid_low i radius) (valid_high i radius n0 + 1) n0,
                                          py_slice (valid_low j radius) (valid_high j radius n1 + 1) n1]\<rparr>
                   in if pad then
                        (let patch_size = 2 * radius + 1 in
                         if patch_size < 0 then (Inl RuntimeError, s)
                         else padded s [C, nat patch_size, nat patch_size]
                                [(0, C),
                                 py_slice ypad_front (patch_size - ypad_back) (nat patch_size),
                                 py_slice xpad_left (patch_size - xpad_right) (nat patch_size)]
                                (deref s patch) val padding)
                      else (Inr (patch, padding), s))
              | _ \<Rightarrow> (Inl IndexError, s))
         | _ \<Rightarrow> (Inl ValueError, s))
      else (Inl UnboundLocalError, s))"

section \<open>Image.draw_line_segment\<close>

text \<open>
  Coordinates are real numbers here, where the source has floats. The intensities that
  the buffer holds are floats with their special values: a number, an infinity, or NaN,
  which a division by zero brings in. \<open>flt_less\<close> is the comparison \<open><\<close> of floats (false
  when a side is NaN), \<open>flt_max\<close> is the maximum as \<open>torch.maximum\<close> takes it (NaN when
  a side is NaN), and \<open>flt_div\<close> is the division of two numbers.
\<close>

datatype flt = Num real | PosInf | NegInf | NaN

fun flt_less :: "flt \<Rightarrow> flt \<Rightarrow> bool" where
  "flt_less (Num a) (Num b) = (a < b)"
| "flt_less (Num a) PosInf = True"
| "flt_less NegInf (Num b) = True"
| "flt_less NegInf PosInf = True"
| "flt_less a b = False"

definition flt_max :: "flt \<Rightarrow> flt \<Rightarrow> flt" where
  "flt_max a b = (if a = NaN \<or> b = NaN then NaN else if flt_less a b then b else a)"

definition flt_div :: "real \<Rightarrow> real \<Rightarrow> flt" where
  "flt_div x m =
     (if m = 0 then (if x = 0 then NaN else if x < 0 then NegInf else PosInf)
      else Num (x / m))"

text \<open>
  The method calls two library functions on values and one cast that Python leaves open.
  \<open>skimage.draw.line_nd\<close> is modelled below from its definition (the points of
  \<open>numpy.linspace\<close> between the two ends, rounded). \<open>skimage.filters.gaussian\<close> is a
  parameter of the model: \<open>gaussian X sigma\<close> is the value of the blurred image at every
  index, the shape of the image being that of \<open>X\<close>. The integer that \<open>.to(int)\<close> gives for
  a NaN is the parameter \<open>nan_to_int\<close>: the cast is undefined, and it gives the smallest
  64-bit integer on x86-64.
\<close>

text \<open>\<open>torch.round\<close> and \<open>numpy.round\<close> round a half to the even neighbour.\<close>

definition round_half_even :: "real \<Rightarrow> int" where
  "round_half_even x =
     (let f = \<lfloor>x\<rfloor>; d = x - of_int f
      in if d < 1 / 2 then f else if 1 / 2 < d then f + 1 else if even f then f else f + 1)"

text \<open>\<open>line_nd(start, stop, endpoint=True)\<close>: one more point than the longest extent of
  the line along an axis, evenly spaced from \<open>start\<close> to \<open>stop\<close>, both included.\<close>

definition line_nd :: "int list \<Rightarrow> int list \<Rightarrow> int list list" where
  "line_nd start stop =
     (let npoints = nat (fold max (map2 (\<lambda>a b. \<bar>b - a\<bar>) start stop) 0) + 1
      in map (\<lambda>k. map2 (\<lambda>a b. if npoints = 1 then a
                               else round_half_even (of_int a + of_nat k * (of_int (b - a) / of_nat (npoints - 1))))
                      start stop)
           [0..<npoints])"

text \<open>\<open>X[line] = v\<close> with a tuple of index arrays: every index is read as Python reads
  \<open>X[i]\<close>, and one index out of range raises IndexError before anything is written.\<close>

definition index_put :: "'a tensor \<Rightarrow> int list list \<Rightarrow> 'a \<Rightarrow> 'a tensor option" where
  "index_put t cells v =
     (case those (map (\<lambda>cell. those (map2 py_index cell (shape t))) cells) of
        None \<Rightarrow> None
      | Some idxs \<Rightarrow> Some (t\<lparr>item := (\<lambda>idx. if idx \<in> set idxs then v else item t idx)\<rparr>))"

text \<open>Lines 122 to 138 of the source: the radius of the working buffer and the two ends
  of the line in it. For a segment of length zero every coordinate of the direction is
  \<open>0/0\<close>, NaN, and so is every coordinate of the two ends before the cast.\<close>

definition line_ends :: "int \<Rightarrow> real list \<times> real list \<Rightarrow> real \<Rightarrow> int \<Rightarrow> int \<times> int list \<times> int list" where
  "line_ends nan_to_int segment width n_dim =
     (let direction = map2 (-) (fst segment) (snd segment);
          segment_length = sqrt (sum_list (map (\<lambda>d. d ^ 2) direction));
          direction = map (\<lambda>d. d / segment_length) direction;
          L = \<lceil>segment_length / 2\<rceil>;
          overhang = py_int (2 * width);
          patch_radius = L + overhang;
          c = replicate (nat n_dim) (of_int patch_radius);
          start = map2 (\<lambda>d c. if segment_length = 0 then nan_to_int
                                else round_half_even (segment_length * d + c)) direction c;
          end = map2 (\<lambda>d c. if segment_length = 0 then nan_to_int
                              else round_half_even (- segment_length * d + c)) direction c
      in (patch_radius, start, end))"

text \<open>Lines 121 to 140: the center of the patch, the radius, and the working buffer with
  the line drawn into it. The model covers segments of two points with \<open>n_dim\<close> coordinates
  each (the source has no check and broadcasts or fails in torch on others).\<close>

definition rasterize :: "int \<Rightarrow> real list \<times> real list \<Rightarrow> real \<Rightarrow> int \<Rightarrow> error + (real tensor \<times> real list \<times> int)" where
  "rasterize nan_to_int segment width n_dim =
     (let center = map2 (\<lambda>a b. (a + b) / 2) (fst segment) (snd segment)
      in if length (fst segment) = nat n_dim \<and> length (snd segment) = nat n_dim then
           (case line_ends nan_to_int segment width n_dim of
              (patch_radius, start, end) \<Rightarrow>
                (let patch_size = 2 * patch_radius + 1
                 in if patch_size < 0 then Inl RuntimeError
                    else
                      (case index_put (full (replicate (nat n_dim) (nat patch_size)) 0) (line_nd start end) 1 of
                         None \<Rightarrow> Inl IndexError
                       | Some X \<Rightarrow> Inr (X, center, patch_radius))))
         else Inl RuntimeError)"

text \<open>All indices of a shape, in row-major order.\<close>

fun all_indices :: "nat list \<Rightarrow> nat list list" where
  "all_indices [] = [[]]"
| "all_indices (n # ns) = concat (map (\<lambda>i. map ((#) i) (all_indices ns)) [0..<n])"

text \<open>\<open>new_patch /= torch.amax(new_patch, dim=...)\<close>: every cell is divided by the
  maximum over all cells. torch refuses to reduce an empty tensor. When the maximum is
  zero the division is by zero: no exception, the cells that are zero become NaN.\<close>

definition normalised :: "real tensor \<Rightarrow> error + flt tensor" where
  "normalised t =
     (if all_indices (shape t) = [] then Inl RuntimeError
      else (let m = Max (set (map (item t) (all_indices (shape t))))
            in Inr \<lparr>shape = shape t, item = (\<lambda>idx. flt_div (item t idx) m)\<rparr>))"

text \<open>The trimming of the working buffer by the padding vector and the normalisation,
  lines 145 to 150.\<close>

definition trim :: "real tensor \<Rightarrow> int list \<Rightarrow> int \<Rightarrow> error + flt tensor" where
  "trim X padding n_dim =
     (if n_dim = 2 then
        (case (shape X, padding) of
           ([m0, m1], [p0, p1, p2, p3]) \<Rightarrow>
             normalised (slice_tensor [py_slice p0 (int m0 - p1) m0, py_slice p2 (int m1 - p3) m1] X)
         | _ \<Rightarrow> Inl IndexError)
      else if n_dim = 3 then
        (case (shape X, padding) of
           ([m0, m1, m2], [p0, p1, p2, p3, p4, p5]) \<Rightarrow>
             normalised (slice_tensor [py_slice p0 (int m0 - p1) m0, py_slice p2 (int m1 - p3) m1,
                                       py_slice p4 (int m2 - p5) m2] X)
         | _ \<Rightarrow> Inl IndexError)
      else Inl UnboundLocalError)"

text \<open>\<open>patch[channel]\<close> of a view: the channel is read as Python reads an index, and the
  result is the view with that one channel. \<open>squeeze\<close> and \<open>unsqueeze\<close> drop and add the
  channel axis of length one.\<close>

definition squeeze :: "'a tensor \<Rightarrow> 'a tensor" where
  "squeeze t = \<lparr>shape = tl (shape t), item = (\<lambda>idx. item t (0 # idx))\<rparr>"

definition unsqueeze :: "'a tensor \<Rightarrow> 'a tensor" where
  "unsqueeze t = \<lparr>shape = 1 # shape t, item = (\<lambda>idx. item t (tl idx))\<rparr>"

definition map_tensor :: "('a \<Rightarrow> 'b) \<Rightarrow> 'a tensor \<Rightarrow> 'b tensor" where
  "map_tensor f t = \<lparr>shape = shape t, item = (\<lambda>idx. f (item t idx))\<rparr>"

text \<open>\<open>torch.maximum\<close> broadcasts its two arguments against each other.\<close>

definition maximum :: "flt tensor \<Rightarrow> flt tensor \<Rightarrow> flt tensor option" where
  "maximum a b =
     (if list_all2 (\<lambda>x y. x = y \<or> x = 1 \<or> y = 1) (shape a) (shape b)
      then Some \<lparr>shape = map2 (\<lambda>x y. if x = 1 then y else x) (shape a) (shape b),
                 item = (\<lambda>idx. flt_max (item a (bcast_index (shape a) idx)) (item b (bcast_index (shape b) idx)))\<rparr>
      else None)"

definition store_assign :: "'a store \<Rightarrow> tref \<Rightarrow> 'a tensor \<Rightarrow> 'a store option" where
  "store_assign s r src =
     (case assign_window (s ! base r) (window r) src of
        None \<Rightarrow> None
      | Some t \<Rightarrow> Some (s[base r := t]))"

text \<open>Lines 153 to 156: the maximum with what the channel holds, written through the view
  into \<open>data\<close>, and the threshold when \<open>binary\<close> is set (NaN is not above the threshold).\<close>

definition composite :: "tref \<Rightarrow> flt tensor \<Rightarrow> bool \<Rightarrow> int \<Rightarrow> flt store \<Rightarrow> error + flt store" where
  "composite patch new_patch binary channel s =
     (case window patch of
        [] \<Rightarrow> Inl IndexError
      | (c0, C) # w \<Rightarrow>
          (case py_index channel C of
             None \<Rightarrow> Inl IndexError
           | Some ch \<Rightarrow>
               (let target = patch\<lparr>window := (c0 + ch, 1) # w\<rparr>
                in case maximum new_patch (squeeze (deref s target)) of
                     None \<Rightarrow> Inl RuntimeError
                   | Some m \<Rightarrow>
                       (case store_assign s target (unsqueeze m) of
                          None \<Rightarrow> Inl RuntimeError
                        | Some s1 \<Rightarrow>
                            if binary then
                              (case store_assign s1 target
                                      (unsqueeze (map_tensor (\<lambda>v. if flt_less (Num (68 / 100)) v then Num 1 else Num 0)
                                                   (squeeze (deref s1 target)))) of
                                 None \<Rightarrow> Inl RuntimeError
                               | Some s2 \<Rightarrow> Inr s2)
                            else Inr s1))))"

text \<open>Lines 121 to 150 together: the view \<open>patch\<close> of \<open>data\<close> that \<open>crop\<close> returns, and
  the normalised mask \<open>new_patch\<close> of its shape. \<open>skimage.filters.gaussian\<close> refuses a
  negative sigma (ValueError) and a sigma that has not one entry per axis of the image
  (RuntimeError).\<close>

definition new_patch ::
  "(real tensor \<Rightarrow> real list \<Rightarrow> nat list \<Rightarrow> real) \<Rightarrow> int \<Rightarrow> image \<Rightarrow> real list \<times> real list \<Rightarrow> real
     \<Rightarrow> int \<Rightarrow> flt store \<Rightarrow> (error + (tref \<times> flt tensor)) \<times> flt store" where
  "new_patch gaussian nan_to_int self segment width n_dim s =
     (case rasterize nan_to_int segment width n_dim of
        Inl e \<Rightarrow> (Inl e, s)
      | Inr (X, center, patch_radius) \<Rightarrow>
          (let sigma = map (\<lambda>d. d * width / 2) (dx self)
           in if list_ex (\<lambda>sg. sg < 0) sigma then (Inl ValueError, s)
              else if length sigma = nat n_dim then
                (let X = X\<lparr>item := gaussian X sigma\<rparr>
                 in case crop self center patch_radius False (Num 0) n_dim s of
                      (Inl e, s') \<Rightarrow> (Inl e, s')
                    | (Inr (patch, padding), s') \<Rightarrow>
                        (case trim X padding n_dim of
                           Inl e \<Rightarrow> (Inl e, s')
                         | Inr m \<Rightarrow> (Inr (patch, m), s')))
              else (Inl RuntimeError, s)))"

text \<open>The method: the mask, then its composition into the channel.\<close>

definition draw_line_segment ::
  "(real tensor \<Rightarrow> real list \<Rightarrow> nat list \<Rightarrow> real) \<Rightarrow> int \<Rightarrow> image \<Rightarrow> real list \<times> real list \<Rightarrow> real
     \<Rightarrow> bool \<Rightarrow> int \<Rightarrow> int \<Rightarrow> flt store \<Rightarrow> (error + unit) \<times> flt store" where
  "draw_line_segment gaussian nan_to_int self segment width binary channel n_dim s =
     (case new_patch gaussian nan_to_int self segment width n_dim s of
        (Inl e, s') \<Rightarrow> (Inl e, s')
      | (Inr (patch, m), s') \<Rightarrow>
          (case composite patch m binary channel s' of
             Inl e \<Rightarrow> (Inl e, s')
           | Inr s'' \<Rightarrow> (Inr (), s'')))"

text \<open>The default of the parameter \<open>channel\<close>.\<close>

definition default_channel :: int where
  "default_channel = - 1"

section \<open>What a draw leaves in the buffer\<close>

text \<open>The value of the mask that \<open>composite\<close> pairs with the cell \<open>A\<close> of \<open>data\<close>, the
  region of the view being \<open>w\<close>.\<close>

definition mask_at :: "flt tensor \<Rightarrow> (nat \<times> nat) list \<Rightarrow> nat list \<Rightarrow> flt" where
  "mask_at new w A = item new (bcast_index (shape new) (map2 (\<lambda>(off, len) i. i - off) w (tl A)))"

text \<open>The tensor that \<open>composite\<close> leaves in place of \<open>t\<close>: inside the window (the
  channel \<open>c\<close> and the valid region \<open>w\<close>) every cell is \<open>g\<close> of the maximum of the mask
  and of what the cell held, outside nothing changes. \<open>g\<close> is the identity, or the
  threshold when \<open>binary\<close> is set.\<close>

definition blend :: "(flt \<Rightarrow> flt) \<Rightarrow> nat \<Rightarrow> (nat \<times> nat) list \<Rightarrow> flt tensor \<Rightarrow> flt tensor \<Rightarrow> flt tensor" where
  "blend g c w new t =
     t\<lparr>item := (\<lambda>A. if in_window ((c, 1) # w) A
                     then g (flt_max (mask_at new w A) (item t A))
                     else item t A)\<rparr>"

definition threshold :: "bool \<Rightarrow> flt \<Rightarrow> flt" where
  "threshold binary v =
     (if binary then (if flt_less (Num (68 / 100)) v then Num 1 else Num 0) else v)"

text \<open>A blur that changes nothing (the limit of the Gaussian for a vanishing sigma), to
  run the model on examples.\<close>

definition no_blur :: "real tensor \<Rightarrow> real list \<Rightarrow> nat list \<Rightarrow> real" where
  "no_blur X sigma = item X"

section \<open>Centers for which the padded crop returns\<close>

text \<open>The indices \<open>c\<close> of the center on an axis of \<open>n\<close> cells for which, with the radius
  given, the valid part has the length of its place in the padded patch: the window is
  far before the axis, or it meets the axis or touches it, or it is far beyond it.\<close>

definition pad_fits :: "int \<Rightarrow> int \<Rightarrow> nat \<Rightarrow> bool" where
  "pad_fits c radius n =
     (c \<le> - (int n + radius) \<or> (- (radius + 1) \<le> c \<and> c \<le> int n + radius)
      \<or> int n + 3 * radius + 1 \<le> c)"

section \<open>A short segment, for examples\<close>

text \<open>The working buffer of the segment from \<open>(a,3)\<close> to \<open>(a,4)\<close> with width 1: edge 7,
  the line in row 3 from column 2 to column 4. \<open>short_mask\<close> is its normalised mask when
  the view covers the whole buffer, \<open>border_mask\<close> when the view covers its last row only.\<close>

abbreviation short_line :: "real tensor" where
  "short_line \<equiv> (full [7, 7] 0)\<lparr>item := (\<lambda>idx. if idx \<in> set [[3, 2], [3, 3], [3, 4]] then 1 else 0)\<rparr>"

abbreviation short_mask :: "flt tensor" where
  "short_mask \<equiv> \<lparr>shape = [7, 7], item = (\<lambda>i. flt_div (item (slice_tensor [(0, 7), (0, 7)] short_line) i) 1)\<rparr>"

abbreviation border_mask :: "flt tensor" where
  "border_mask \<equiv> \<lparr>shape = [1, 7], item = (\<lambda>i. flt_div (item (slice_tensor [(6, 1), (0, 7)] short_line) i) 0)\<rparr>"


section \<open>Properties of crop\<close>

lemma slice_len_int:
  assumes "0 \<le> a" "0 \<le> b"
  shows "int (snd (py_slice a b n)) = max 0 (min b (int n) - min a (int n))"
proof -
  have "slice_index a n = nat (min a (int n))" "slice_index b n = nat (min b (int n))"
    using assms by (auto simp add: slice_index_def min_def)
  then show ?thesis
    using assms by (simp add: py_slice_def max_def min_def)
qed

lemma band_slices_agree:
  assumes r: "0 \<le> radius" and lo: "- (radius + 1) \<le> c" and hi: "c \<le> int n + radius"
  shows "snd (py_slice (valid_low c radius) (valid_high c radius n + 1) n)
       = snd (py_slice (pad_before c radius) (2 * radius + 1 - pad_after c radius n) (nat (2 * radius + 1)))"
proof -
  have a1: "0 \<le> valid_low c radius" by (simp add: valid_low_def pad_before_def)
  have a2: "0 \<le> valid_high c radius n + 1" using lo by (simp add: valid_high_def pad_after_def)
  have a3: "0 \<le> pad_before c radius" by (simp add: pad_before_def)
  have a4: "0 \<le> 2 * radius + 1 - pad_after c radius n" using r hi by (simp add: pad_after_def)
  have "max 0 (min (valid_high c radius n + 1) (int n) - min (valid_low c radius) (int n))
      = max 0 (min (2 * radius + 1 - pad_after c radius n) (2 * radius + 1)
           - min (pad_before c radius) (2 * radius + 1))"
  proof (cases "c - radius < 0")
    case True
    show ?thesis
    proof (cases "c + radius > int n - 1")
      case True
      with \<open>c - radius < 0\<close> r lo hi show ?thesis
        by (simp add: valid_low_def valid_high_def pad_before_def pad_after_def)
    next
      case False
      with \<open>c - radius < 0\<close> r lo hi show ?thesis
        by (simp add: valid_low_def valid_high_def pad_before_def pad_after_def)
    qed
  next
    case False
    show ?thesis
    proof (cases "c + radius > int n - 1")
      case True
      with \<open>\<not> c - radius < 0\<close> r lo hi show ?thesis
        by (simp add: valid_low_def valid_high_def pad_before_def pad_after_def)
    next
      case False
      with \<open>\<not> c - radius < 0\<close> r lo hi show ?thesis
        by (simp add: valid_low_def valid_high_def pad_before_def pad_after_def)
    qed
  qed
  then have "int (snd (py_slice (valid_low c radius) (valid_high c radius n + 1) n))
       = int (snd (py_slice (pad_before c radius) (2 * radius + 1 - pad_after c radius n) (nat (2 * radius + 1))))"
    using r by (simp only: slice_len_int [OF a1 a2] slice_len_int [OF a3 a4]) simp
  then show ?thesis by (simp only: of_nat_eq_iff)
qed

lemma slice_index_int:
  "int (slice_index x n) = (if x < 0 then max 0 (x + int n) else min x (int n))"
  by (auto simp add: slice_index_def min_def)

lemma slice_len_general:
  "int (snd (py_slice a b n))
     = max 0 ((if b < 0 then max 0 (b + int n) else min b (int n))
              - (if a < 0 then max 0 (a + int n) else min a (int n)))"
  unfolding py_slice_def snd_conv
  by (simp only: of_nat_diff_if slice_index_int [symmetric]) (simp add: max_def)

lemma far_before_lengths:
  assumes r: "0 \<le> radius" and c: "c < - (radius + 1)"
  shows "int (snd (py_slice (valid_low c radius) (valid_high c radius n + 1) n)) = max 0 (int n + c + radius + 1)"
    and "snd (py_slice (pad_before c radius) (2 * radius + 1 - pad_after c radius n) (nat (2 * radius + 1))) = 0"
proof -
  show "int (snd (py_slice (valid_low c radius) (valid_high c radius n + 1) n)) = max 0 (int n + c + radius + 1)"
    using r c by (simp add: slice_len_general valid_low_def valid_high_def pad_before_def pad_after_def)
  have "int (snd (py_slice (pad_before c radius) (2 * radius + 1 - pad_after c radius n) (nat (2 * radius + 1)))) = 0"
    using r c by (simp add: slice_len_general pad_before_def pad_after_def)
  then show "snd (py_slice (pad_before c radius) (2 * radius + 1 - pad_after c radius n) (nat (2 * radius + 1))) = 0"
    by simp
qed

lemma far_beyond_lengths:
  assumes r: "0 \<le> radius" and c: "int n + radius < c"
  shows "snd (py_slice (valid_low c radius) (valid_high c radius n + 1) n) = 0"
    and "int (snd (py_slice (pad_before c radius) (2 * radius + 1 - pad_after c radius n) (nat (2 * radius + 1))))
           = max 0 (int n + 3 * radius + 1 - c)"
proof -
  have "int (snd (py_slice (valid_low c radius) (valid_high c radius n + 1) n)) = 0"
    using r c by (simp add: slice_len_general valid_low_def valid_high_def pad_before_def pad_after_def)
  then show "snd (py_slice (valid_low c radius) (valid_high c radius n + 1) n) = 0"
    by simp
  show "int (snd (py_slice (pad_before c radius) (2 * radius + 1 - pad_after c radius n) (nat (2 * radius + 1))))
           = max 0 (int n + 3 * radius + 1 - c)"
    using r c by (simp add: slice_len_general pad_before_def pad_after_def)
qed

lemma pad_fits_iff:
  assumes r: "0 \<le> radius"
  shows "(snd (py_slice (valid_low c radius) (valid_high c radius n + 1) n)
            = snd (py_slice (pad_before c radius) (2 * radius + 1 - pad_after c radius n) (nat (2 * radius + 1)))
          \<or> snd (py_slice (valid_low c radius) (valid_high c radius n + 1) n) = 1)
         \<longleftrightarrow> pad_fits c radius n"
proof -
  consider "c < - (radius + 1)" | "- (radius + 1) \<le> c \<and> c \<le> int n + radius" | "int n + radius < c"
    by linarith
  then show ?thesis
  proof cases
    case 1
    let ?a = "snd (py_slice (valid_low c radius) (valid_high c radius n + 1) n)"
    from far_before_lengths [OF r 1, of n]
    have a: "int ?a = max 0 (int n + c + radius + 1)"
      and b: "snd (py_slice (pad_before c radius) (2 * radius + 1 - pad_after c radius n) (nat (2 * radius + 1))) = 0"
      by simp_all
    have "(?a = 0 \<or> ?a = 1) \<longleftrightarrow> int ?a \<le> 1" by linarith
    also have "\<dots> \<longleftrightarrow> c \<le> - (int n + radius)" unfolding a by (auto simp add: max_def)
    also have "\<dots> \<longleftrightarrow> pad_fits c radius n" using r 1 by (auto simp add: pad_fits_def)
    finally show ?thesis unfolding b .
  next
    case 2
    then have "snd (py_slice (valid_low c radius) (valid_high c radius n + 1) n)
            = snd (py_slice (pad_before c radius) (2 * radius + 1 - pad_after c radius n) (nat (2 * radius + 1)))"
      using band_slices_agree [OF r, of c n] by simp
    with 2 show ?thesis by (simp add: pad_fits_def)
  next
    case 3
    let ?b = "snd (py_slice (pad_before c radius) (2 * radius + 1 - pad_after c radius n) (nat (2 * radius + 1)))"
    from far_beyond_lengths [OF r 3]
    have a: "snd (py_slice (valid_low c radius) (valid_high c radius n + 1) n) = 0"
      and b: "int ?b = max 0 (int n + 3 * radius + 1 - c)"
      by simp_all
    have "(0 = ?b \<or> (0::nat) = 1) \<longleftrightarrow> int ?b \<le> 0" by auto
    also have "\<dots> \<longleftrightarrow> int n + 3 * radius + 1 \<le> c" unfolding b by (auto simp add: max_def)
    also have "\<dots> \<longleftrightarrow> pad_fits c radius n" using r 3 by (auto simp add: pad_fits_def)
    finally show ?thesis unfolding a .
  qed
qed

lemma padded_fail:
  assumes "\<not> broadcastable (shape patch) (map snd w)"
  shows "padded s sh w patch val padding = (Inl RuntimeError, s)"
  using assms by (simp add: padded_def assign_window_def)

lemma padded_ok:
  assumes "broadcastable (shape patch) (map snd w)"
  shows "\<exists>t. padded s sh w patch val padding
       = (Inr (\<lparr>base = length s, window = whole sh\<rparr>, padding), s @ [t])"
  using assms by (simp add: padded_def assign_window_def)

lemma shape_deref_whole:
  "shape (deref (s @ [t]) \<lparr>base = length s, window = whole sh\<rparr>) = sh"
  by (simp add: deref_def slice_tensor_def whole_def comp_def)

lemma crop3_pad:
  assumes sh: "shape (s ! data self) = [C, n0, n1, n2]"
    and r: "0 \<le> radius"
    and bx: "pad_fits (py_int x) radius n0"
    and by': "pad_fits (py_int y) radius n1"
    and bz: "pad_fits (py_int z) radius n2"
  shows "\<exists>patch s'. crop self [x, y, z] radius True val 3 s
             = (Inr (patch, [pad_before (py_int x) radius, pad_after (py_int x) radius n0,
                             pad_before (py_int y) radius, pad_after (py_int y) radius n1,
                             pad_before (py_int z) radius, pad_after (py_int z) radius n2]), s')
           \<and> shape (deref s' patch) = [C, nat (2 * radius + 1), nat (2 * radius + 1), nat (2 * radius + 1)]"
proof -
  let ?P = "nat (2 * radius + 1)"
  let ?w = "[(0, C),
             py_slice (pad_before (py_int x) radius) (2 * radius + 1 - pad_after (py_int x) radius n0) ?P,
             py_slice (pad_before (py_int y) radius) (2 * radius + 1 - pad_after (py_int y) radius n1) ?P,
             py_slice (pad_before (py_int z) radius) (2 * radius + 1 - pad_after (py_int z) radius n2) ?P]"
  let ?patch = "\<lparr>base = data self,
                 window = [(0, C),
                   py_slice (valid_low (py_int x) radius) (valid_high (py_int x) radius n0 + 1) n0,
                   py_slice (valid_low (py_int y) radius) (valid_high (py_int y) radius n1 + 1) n1,
                   py_slice (valid_low (py_int z) radius) (valid_high (py_int z) radius n2 + 1) n2]\<rparr>"
  let ?padding = "[pad_before (py_int x) radius, pad_after (py_int x) radius n0,
                   pad_before (py_int y) radius, pad_after (py_int y) radius n1,
                   pad_before (py_int z) radius, pad_after (py_int z) radius n2]"
  have b: "broadcastable (shape (deref s ?patch)) (map snd ?w)"
    using bx by' bz pad_fits_iff [OF r, of "py_int x" n0] pad_fits_iff [OF r, of "py_int y" n1]
      pad_fits_iff [OF r, of "py_int z" n2]
    by (simp add: broadcastable_def deref_def slice_tensor_def)
  obtain t where "padded s [C, ?P, ?P, ?P] ?w (deref s ?patch) val ?padding
      = (Inr (\<lparr>base = length s, window = whole [C, ?P, ?P, ?P]\<rparr>, ?padding), s @ [t])"
    using padded_ok [OF b] by blast
  then show ?thesis
    using r sh by (simp add: crop_def Let_def shape_deref_whole)
qed

lemma crop2_pad:
  assumes sh: "shape (s ! data self) = [C, n0, n1]"
    and r: "0 \<le> radius"
    and bx: "pad_fits (py_int x) radius n0"
    and by': "pad_fits (py_int y) radius n1"
  shows "\<exists>patch s'. crop self [x, y] radius True val 2 s
             = (Inr (patch, [pad_before (py_int x) radius, pad_after (py_int x) radius n0,
                             pad_before (py_int y) radius, pad_after (py_int y) radius n1]), s')
           \<and> shape (deref s' patch) = [C, nat (2 * radius + 1), nat (2 * radius + 1)]"
proof -
  let ?P = "nat (2 * radius + 1)"
  let ?w = "[(0, C),
             py_slice (pad_before (py_int x) radius) (2 * radius + 1 - pad_after (py_int x) radius n0) ?P,
             py_slice (pad_before (py_int y) radius) (2 * radius + 1 - pad_after (py_int y) radius n1) ?P]"
  let ?patch = "\<lparr>base = data self,
                 window = [(0, C),
                   py_slice (valid_low (py_int x) radius) (valid_high (py_int x) radius n0 + 1) n0,
                   py_slice (valid_low (py_int y) radius) (valid_high (py_int y) radius n1 + 1) n1]\<rparr>"
  let ?padding = "[pad_before (py_int x) radius, pad_after (py_int x) radius n0,
                   pad_before (py_int y) radius, pad_after (py_int y) radius n1]"
  have b: "broadcastable (shape (deref s ?patch)) (map snd ?w)"
    using bx by' pad_fits_iff [OF r, of "py_int x" n0] pad_fits_iff [OF r, of "py_int y" n1]
    by (simp add: broadcastable_def deref_def slice_tensor_def)
  obtain t where "padded s [C, ?P, ?P] ?w (deref s ?patch) val ?padding
      = (Inr (\<lparr>base = length s, window = whole [C, ?P, ?P]\<rparr>, ?padding), s @ [t])"
    using padded_ok [OF b] by blast
  then show ?thesis
    using r sh by (simp add: crop_def Let_def shape_deref_whole)
qed


lemma crop3_pad_fail:
  assumes sh: "shape (s ! data self) = [C, n0, n1, n2]"
    and r: "0 \<le> radius"
    and nf: "\<not> (pad_fits (py_int x) radius n0 \<and> pad_fits (py_int y) radius n1 \<and> pad_fits (py_int z) radius n2)"
  shows "crop self [x, y, z] radius True val 3 s = (Inl RuntimeError, s)"
proof -
  let ?P = "nat (2 * radius + 1)"
  let ?w = "[(0, C),
             py_slice (pad_before (py_int x) radius) (2 * radius + 1 - pad_after (py_int x) radius n0) ?P,
             py_slice (pad_before (py_int y) radius) (2 * radius + 1 - pad_after (py_int y) radius n1) ?P,
             py_slice (pad_before (py_int z) radius) (2 * radius + 1 - pad_after (py_int z) radius n2) ?P]"
  let ?patch = "\<lparr>base = data self,
                 window = [(0, C),
                   py_slice (valid_low (py_int x) radius) (valid_high (py_int x) radius n0 + 1) n0,
                   py_slice (valid_low (py_int y) radius) (valid_high (py_int y) radius n1 + 1) n1,
                   py_slice (valid_low (py_int z) radius) (valid_high (py_int z) radius n2 + 1) n2]\<rparr>"
  have b: "\<not> broadcastable (shape (deref s ?patch)) (map snd ?w)"
    using nf pad_fits_iff [OF r, of "py_int x" n0] pad_fits_iff [OF r, of "py_int y" n1]
      pad_fits_iff [OF r, of "py_int z" n2]
    by (simp add: broadcastable_def deref_def slice_tensor_def)
  show ?thesis
    using r sh by (simp add: crop_def Let_def padded_fail [OF b])
qed

lemma crop2_pad_fail:
  assumes sh: "shape (s ! data self) = [C, n0, n1]"
    and r: "0 \<le> radius"
    and nf: "\<not> (pad_fits (py_int x) radius n0 \<and> pad_fits (py_int y) radius n1)"
  shows "crop self [x, y] radius True val 2 s = (Inl RuntimeError, s)"
proof -
  let ?P = "nat (2 * radius + 1)"
  let ?w = "[(0, C),
             py_slice (pad_before (py_int x) radius) (2 * radius + 1 - pad_after (py_int x) radius n0) ?P,
             py_slice (pad_before (py_int y) radius) (2 * radius + 1 - pad_after (py_int y) radius n1) ?P]"
  let ?patch = "\<lparr>base = data self,
                 window = [(0, C),
                   py_slice (valid_low (py_int x) radius) (valid_high (py_int x) radius n0 + 1) n0,
                   py_slice (valid_low (py_int y) radius) (valid_high (py_int y) radius n1 + 1) n1]\<rparr>"
  have b: "\<not> broadcastable (shape (deref s ?patch)) (map snd ?w)"
    using nf pad_fits_iff [OF r, of "py_int x" n0] pad_fits_iff [OF r, of "py_int y" n1]
    by (simp add: broadcastable_def deref_def slice_tensor_def)
  show ?thesis
    using r sh by (simp add: crop_def Let_def padded_fail [OF b])
qed

lemma padded_store: "snd (padded s sh w patch val padding) = s \<or> (\<exists>t. snd (padded s sh w patch val padding) = s @ [t])"
  by (simp add: padded_def split: option.split)

lemma crop_store: "snd (crop self center radius pad val n_dim s) = s \<or> (\<exists>t. snd (crop self center radius pad val n_dim s) = s @ [t])"
  using padded_store [where s = s and val = val]
  by (simp add: crop_def Let_def split: list.split)

lemma crop3_view:
  assumes "shape (s ! data self) = [C, n0, n1, n2]"
  shows "crop self [x, y, z] radius False val 3 s
       = (Inr (\<lparr>base = data self,
                 window = [(0, C),
                   py_slice (valid_low (py_int x) radius) (valid_high (py_int x) radius n0 + 1) n0,
                   py_slice (valid_low (py_int y) radius) (valid_high (py_int y) radius n1 + 1) n1,
                   py_slice (valid_low (py_int z) radius) (valid_high (py_int z) radius n2 + 1) n2]\<rparr>,
               [pad_before (py_int x) radius, pad_after (py_int x) radius n0,
                pad_before (py_int y) radius, pad_after (py_int y) radius n1,
                pad_before (py_int z) radius, pad_after (py_int z) radius n2]), s)"
  using assms by (simp add: crop_def Let_def)

lemma crop2_view:
  assumes "shape (s ! data self) = [C, n0, n1]"
  shows "crop self [x, y] radius False val 2 s
       = (Inr (\<lparr>base = data self,
                 window = [(0, C),
                   py_slice (valid_low (py_int x) radius) (valid_high (py_int x) radius n0 + 1) n0,
                   py_slice (valid_low (py_int y) radius) (valid_high (py_int y) radius n1 + 1) n1]\<rparr>,
               [pad_before (py_int x) radius, pad_after (py_int x) radius n0,
                pad_before (py_int y) radius, pad_after (py_int y) radius n1]), s)"
  using assms by (simp add: crop_def Let_def)

lemma pad_before_nonneg: "0 \<le> pad_before c radius"
  by (simp add: pad_before_def)

lemma pad_after_nonneg: "0 \<le> pad_after c radius n"
  by (simp add: pad_after_def)

lemma padded_padding:
  "padded s sh w patch val padding = (Inr (p, padding'), s') \<Longrightarrow> padding' = padding"
  by (simp add: padded_def split: option.splits)

lemma crop_padding_nonneg:
  assumes "crop self center radius pad val n_dim s = (Inr (patch, padding), s')"
  shows "\<forall>p \<in> set padding. 0 \<le> p"
  using assms
  by (auto simp add: crop_def Let_def pad_before_nonneg pad_after_nonneg
      split: if_splits list.splits dest!: padded_padding)

lemma crop_view_window:
  assumes "crop self center radius False val n_dim s = (Inr (patch, padding), s')"
  shows "window patch = (0, hd (shape (s ! data self))) #
           map2 (\<lambda>c n. py_slice (valid_low c radius) (valid_high c radius n + 1) n)
             (map py_int center) (tl (shape (s ! data self)))"
  using assms
  by (auto simp add: crop_def Let_def split: if_splits list.splits)

subsection \<open>The padded patch has edge \<open>2 * radius + 1\<close>\<close>

text \<open>
  Claim C1 says that \<open>crop\<close> with \<open>pad=True\<close> returns, for every center and every radius
  \<open>\<ge> 0\<close>, without an exception and with a patch of edge \<open>2 * radius + 1\<close> on every spatial
  axis. The source computes the slice bounds with plain index arithmetic, and Python reads
  a negative slice bound from the end of the axis: five cells before a 30-cell volume, with
  radius 3, the slice taken from \<open>data\<close> is \<open>[0:-1]\<close>, 29 cells long, and its assignment
  into the empty target \<open>[8:7]\<close> of the new patch is refused.
\<close>

theorem crop_pad_outside_counterexample:
  "fst (crop \<lparr>data = 0, dx = [1, 1, 1]\<rparr> [- 5, 0, 0] 3 True (0::real) 3 [full [3, 30, 30, 30] 0])
     = Inl RuntimeError"
  by code_simp

text \<open>
  Claim C1, amended: for every radius \<open>\<ge> 0\<close>, \<open>crop\<close> with \<open>pad=True\<close> (\<open>n_dim\<close> 2 or 3)
  returns a patch exactly for the centers whose truncated index \<open>c\<close> satisfies, on every
  spatial axis of size \<open>n\<close>, one of \<open>c \<le> -(n + radius)\<close>, \<open>-(radius + 1) \<le> c \<le> n + radius\<close>
  and \<open>c \<ge> n + 3 * radius + 1\<close>: the centers inside the volume, those near it, and those
  far outside it, for which the patch is all fill. The patch returned has the channels of
  \<open>data\<close> and edge \<open>2 * radius + 1\<close> on every spatial axis. For every other center (the two
  rings \<open>-(n + radius) < c < -(radius + 1)\<close> and \<open>n + radius < c \<le> n + 3 * radius\<close> on some
  axis) the call raises RuntimeError.
\<close>

theorem crop_pad_edge_length:
  assumes nd: "n_dim = 2 \<or> n_dim = 3"
    and lc: "length center = nat n_dim"
    and ls: "length (shape (s ! data self)) = Suc (nat n_dim)"
    and r: "0 \<le> radius"
  shows "((\<forall>ax < nat n_dim. pad_fits (py_int (center ! ax)) radius (shape (s ! data self) ! Suc ax)) \<longrightarrow>
            (\<exists>patch padding s'. crop self center radius True val n_dim s = (Inr (patch, padding), s')
               \<and> shape (deref s' patch)
                   = hd (shape (s ! data self)) # replicate (nat n_dim) (nat (2 * radius + 1))))
       \<and> (\<not> (\<forall>ax < nat n_dim. pad_fits (py_int (center ! ax)) radius (shape (s ! data self) ! Suc ax)) \<longrightarrow>
            crop self center radius True val n_dim s = (Inl RuntimeError, s))"
  using nd
proof
  assume n2: "n_dim = 2"
  from lc n2 obtain x y where c: "center = [x, y]"
    by (auto simp add: length_Suc_conv numeral_2_eq_2)
  from ls n2 obtain C n0 n1 where sh: "shape (s ! data self) = [C, n0, n1]"
    by (auto simp add: length_Suc_conv numeral_2_eq_2)
  have all: "(\<forall>ax < nat n_dim. pad_fits (py_int (center ! ax)) radius (shape (s ! data self) ! Suc ax))
      \<longleftrightarrow> pad_fits (py_int x) radius n0 \<and> pad_fits (py_int y) radius n1"
    by (auto simp add: n2 c sh numeral_2_eq_2 All_less_Suc)
  show ?thesis
  proof (cases "pad_fits (py_int x) radius n0 \<and> pad_fits (py_int y) radius n1")
    case True
    with crop2_pad [OF sh r, of x y val] all show ?thesis
      by (auto simp add: n2 c sh numeral_2_eq_2)
  next
    case False
    with crop2_pad_fail [OF sh r, of x y val] all show ?thesis
      by (simp add: n2 c)
  qed
next
  assume n3: "n_dim = 3"
  from lc n3 obtain x y z where c: "center = [x, y, z]"
    by (auto simp add: length_Suc_conv numeral_3_eq_3)
  from ls n3 obtain C n0 n1 n2 where sh: "shape (s ! data self) = [C, n0, n1, n2]"
    by (auto simp add: length_Suc_conv numeral_3_eq_3)
  have all: "(\<forall>ax < nat n_dim. pad_fits (py_int (center ! ax)) radius (shape (s ! data self) ! Suc ax))
      \<longleftrightarrow> pad_fits (py_int x) radius n0 \<and> pad_fits (py_int y) radius n1 \<and> pad_fits (py_int z) radius n2"
    by (auto simp add: n3 c sh numeral_3_eq_3 All_less_Suc)
  show ?thesis
  proof (cases "pad_fits (py_int x) radius n0 \<and> pad_fits (py_int y) radius n1 \<and> pad_fits (py_int z) radius n2")
    case True
    with crop3_pad [OF sh r, of x y z val] all show ?thesis
      by (auto simp add: n3 c sh numeral_3_eq_3)
  next
    case False
    with crop3_pad_fail [OF sh r, of x y z val] all show ?thesis
      by (simp add: n3 c)
  qed
qed

text \<open>On a 3x30x30x30 volume with radius 3: the center (40, -34, 12), far beyond the first
  axis, far before the second and inside the third, gives a patch of shape (3,7,7,7); the
  center (34, 0, 0), in the ring beyond the first axis, raises.\<close>

theorem crop_pad_edge_length_witness:
  "(\<exists>patch padding s'.
      crop \<lparr>data = 0, dx = [1, 1, 1]\<rparr> [40, - 34, 25 / 2] 3 True (0::real) 3 [full [3, 30, 30, 30] 1]
        = (Inr (patch, padding), s')
      \<and> shape (deref s' patch) = [3, 7, 7, 7])
   \<and> crop \<lparr>data = 0, dx = [1, 1, 1]\<rparr> [34, 0, 0] 3 True (0::real) 3 [full [3, 30, 30, 30] 1]
        = (Inl RuntimeError, [full [3, 30, 30, 30] 1])"
proof -
  have a: "(3::int) = 2 \<or> (3::int) = 3" by simp
  have "\<exists>patch padding s'.
      crop \<lparr>data = 0, dx = [1, 1, 1]\<rparr> [40, - 34, 25 / 2] 3 True (0::real) 3 [full [3, 30, 30, 30] 1]
        = (Inr (patch, padding), s')
      \<and> shape (deref s' patch) = [3, 7, 7, 7]"
    using crop_pad_edge_length [OF a, of "[40, - 34, 25 / 2]" "[full [3, 30, 30, 30] (1::real)]"
        "\<lparr>data = 0, dx = [1, 1, 1]\<rparr>" 3 "0::real"]
    by (simp add: full_def py_int_def pad_fits_def numeral_3_eq_3 All_less_Suc)
  moreover have "crop \<lparr>data = 0, dx = [1, 1, 1]\<rparr> [34, 0, 0] 3 True (0::real) 3 [full [3, 30, 30, 30] 1]
        = (Inl RuntimeError, [full [3, 30, 30, 30] 1])"
    using crop_pad_edge_length [OF a, of "[34, 0, 0]" "[full [3, 30, 30, 30] (1::real)]"
        "\<lparr>data = 0, dx = [1, 1, 1]\<rparr>" 3 "0::real"]
    by (simp add: full_def py_int_def pad_fits_def numeral_3_eq_3 All_less_Suc)
  ultimately show ?thesis by simp
qed

subsection \<open>Padding entries and slice bounds\<close>

text \<open>
  Claim C4 says that the padding entries are \<open>\<ge> 0\<close> and that both bounds of the slice
  taken from \<open>data\<close> lie within \<open>[0, size - 1]\<close>, for every center. With the center ten cells
  beyond a 30-cell axis and radius 3 the low bound is 37; with the center five cells before
  it the high bound is \<open>-2\<close>.
\<close>

theorem crop_bounds_outside_counterexample:
  "valid_low (py_int 40) 3 = 37 \<and> \<not> valid_low (py_int 40) 3 \<le> int 30 - 1
   \<and> valid_high (py_int (- 5)) 3 30 = - 2 \<and> \<not> 0 \<le> valid_high (py_int (- 5)) 3 30"
  by (simp add: valid_low_def valid_high_def pad_before_def pad_after_def py_int_def)

text \<open>
  Claim C4, amended: for every center and radius the entries of the padding vector that
  \<open>crop\<close> returns are \<open>\<ge> 0\<close>; the slice taken from \<open>data\<close> has on every axis the bounds
  \<open>valid_low\<close> and \<open>valid_high\<close> (inclusive), of which the low one is \<open>\<ge> 0\<close> and the
  high one \<open>\<le> size - 1\<close>; the low bound is \<open>\<le> size - 1\<close> exactly when the axis is not
  empty and \<open>c - radius \<le> size - 1\<close>, and the high bound is \<open>\<ge> 0\<close> exactly when the axis
  is not empty and \<open>c + radius \<ge> 0\<close>.
\<close>

theorem crop_padding_and_bounds:
  "(crop self center radius pad val n_dim s = (Inr (patch, padding), s') \<longrightarrow> (\<forall>p \<in> set padding. 0 \<le> p))
   \<and> (crop self center radius False val n_dim s = (Inr (patch, padding), s') \<longrightarrow>
        window patch = (0, hd (shape (s ! data self))) #
           map2 (\<lambda>c n. py_slice (valid_low c radius) (valid_high c radius n + 1) n)
             (map py_int center) (tl (shape (s ! data self))))
   \<and> 0 \<le> valid_low c radius \<and> valid_high c radius n \<le> int n - 1
   \<and> (valid_low c radius \<le> int n - 1 \<longleftrightarrow> 0 < n \<and> c - radius \<le> int n - 1)
   \<and> (0 \<le> valid_high c radius n \<longleftrightarrow> 0 < n \<and> 0 \<le> c + radius)"
proof -
  have "0 \<le> valid_low c radius" "valid_high c radius n \<le> int n - 1"
    "valid_low c radius \<le> int n - 1 \<longleftrightarrow> 0 < n \<and> c - radius \<le> int n - 1"
    "0 \<le> valid_high c radius n \<longleftrightarrow> 0 < n \<and> 0 \<le> c + radius"
    by (auto simp add: valid_low_def valid_high_def pad_before_def pad_after_def)
  then show ?thesis
    using crop_padding_nonneg [of self center radius pad val n_dim s patch padding s']
      crop_view_window [of self center radius val n_dim s patch padding s']
    by simp
qed

theorem crop_padding_and_bounds_witness:
  "crop \<lparr>data = 0, dx = [1, 1, 1]\<rparr> [0, 29, 12] 3 False (0::real) 3 [full [3, 30, 30, 30] 0]
     = (Inr (\<lparr>base = 0, window = [(0, 3), (0, 4), (26, 4), (9, 7)]\<rparr>, [3, 0, 0, 3, 0, 0]),
        [full [3, 30, 30, 30] 0])
   \<and> valid_low 29 3 = 26 \<and> valid_high 29 3 30 = 29"
  using crop_padding_and_bounds [of "\<lparr>data = 0, dx = [1, 1, 1]\<rparr>" "[0, 29, 12]" 3 False "0::real" 3
      "[full [3, 30, 30, 30] 0]" "\<lparr>base = 0, window = [(0, 3), (0, 4), (26, 4), (9, 7)]\<rparr>"
      "[3, 0, 0, 3, 0, 0]" "[full [3, 30, 30, 30] 0]" 29 30]
  by (simp add: crop3_view [where C = 3 and ?n0.0 = 30 and ?n1.0 = 30 and ?n2.0 = 30] full_def
      py_int_def pad_before_def pad_after_def valid_low_def valid_high_def py_slice_def slice_index_def)

subsection \<open>The corner scenario\<close>

text \<open>
  Claim C8: cropping a 3x30x30x30 volume at center (0,0,0) with radius 3 and \<open>pad=True\<close>
  returns a patch of shape (3,7,7,7), and a padding vector whose low-side entries
  (top, front, left) are 3 and whose high-side entries (bottom, back, right) are 0.
\<close>

theorem crop_corner_scenario:
  assumes "shape (s ! data self) = [3, 30, 30, 30]"
  shows "\<exists>patch s'. crop self [0, 0, 0] 3 True val 3 s = (Inr (patch, [3, 0, 3, 0, 3, 0]), s')
            \<and> shape (deref s' patch) = [3, 7, 7, 7]"
  using crop3_pad [OF assms, of 3 0 0 0 val]
  by (simp add: py_int_def pad_before_def pad_after_def pad_fits_def)

theorem crop_corner_scenario_witness:
  "\<exists>patch s'. crop \<lparr>data = 0, dx = [1, 1, 1]\<rparr> [0, 0, 0] 3 True (0::real) 3 [full [3, 30, 30, 30] 1]
        = (Inr (patch, [3, 0, 3, 0, 3, 0]), s')
      \<and> shape (deref s' patch) = [3, 7, 7, 7]"
  using crop_corner_scenario [of "[full [3, 30, 30, 30] (1::real)]" "\<lparr>data = 0, dx = [1, 1, 1]\<rparr>" "0::real"]
  by (simp add: full_def)

subsection \<open>crop writes nothing into the buffer\<close>

text \<open>
  Claim C9: for every center, radius, pad flag, fill value and \<open>n_dim\<close>, \<open>crop\<close> leaves
  \<open>self.data\<close> as it was. Every tensor of the store is after the call what it was before:
  the only write of \<open>crop\<close>, the assignment into the padded patch, goes to a tensor at a new
  address, and without padding the patch returned is a view of \<open>data\<close> and nothing is
  written at all.
\<close>

theorem crop_reads_only:
  "take (length s) (snd (crop self center radius pad val n_dim s)) = s
   \<and> (data self < length s \<longrightarrow> snd (crop self center radius pad val n_dim s) ! data self = s ! data self)"
  using crop_store [of self center radius pad val n_dim s]
  by (auto simp add: nth_append)

theorem crop_reads_only_witness:
  "snd (crop \<lparr>data = 0, dx = [1, 1, 1]\<rparr> [0, 0, 0] 3 True (0::real) 3 [full [3, 30, 30, 30] 1]) ! 0
     = full [3, 30, 30, 30] 1"
  using crop_reads_only [of "[full [3, 30, 30, 30] (1::real)]" "\<lparr>data = 0, dx = [1, 1, 1]\<rparr>"
      "[0, 0, 0]" 3 True "0::real" 3]
  by simp

section \<open>Properties of draw_line_segment\<close>

subsection \<open>What composite writes\<close>

lemma in_window_rebase:
  "in_window w A \<Longrightarrow> map2 (\<lambda>(off, len) i. off + i) w (map2 (\<lambda>(off, len) i. i - off) w A) = A"
  unfolding in_window_def
  by (induction w A rule: list_all2_induct) auto

lemma in_window_in_range:
  "in_window w A \<Longrightarrow> list_all2 (\<lambda>i n. i < n) (map2 (\<lambda>(off, len) i. i - off) w A) (map snd w)"
  unfolding in_window_def
  by (induction w A rule: list_all2_induct) auto

lemma bcast_index_in_range:
  "list_all2 (\<lambda>i n. i < n) idx sh \<Longrightarrow> bcast_index sh idx = idx"
  unfolding bcast_index_def
  by (induction idx sh rule: list_all2_induct) auto

lemma maximum_shape:
  assumes "list_all2 (\<lambda>x y. x = y \<or> x = 1 \<or> y = 1) a b"
    and "list_all2 (\<lambda>x y. x = y \<or> x = 1) (map2 (\<lambda>x y. if x = 1 then y else x) a b) b"
  shows "map2 (\<lambda>x y. if x = 1 then y else x) a b = b \<and> list_all2 (\<lambda>x y. x = y \<or> x = 1) a b"
  using assms
  by (induction a b rule: list_all2_induct) (auto split: if_splits)

lemma maximum_shape_conv:
  assumes "list_all2 (\<lambda>x y. x = y \<or> x = (1::nat)) a b"
  shows "list_all2 (\<lambda>x y. x = y \<or> x = 1 \<or> y = 1) a b
       \<and> map2 (\<lambda>x y. if x = 1 then y else x) a b = b"
  using assms
  by (induction a b rule: list_all2_induct) auto


lemma window_cons:
  assumes "in_window ((c, 1) # w) A"
  shows "\<exists>A'. A = c # A' \<and> in_window w A'"
  using assms unfolding in_window_def
  by (cases A) auto

lemma read_unsqueeze:
  assumes "in_window ((c, 1) # w) A"
  shows "item (unsqueeze X) (bcast_index (1 # map snd w) (map2 (\<lambda>(off, len) i. i - off) ((c, 1) # w) A))
       = item X (map2 (\<lambda>(off, len) i. i - off) w (tl A))"
proof -
  from window_cons [OF assms] obtain A' where A: "A = c # A'" and iw: "in_window w A'" by blast
  have "bcast_index (map snd w) (map2 (\<lambda>(off, len) i. i - off) w A') = map2 (\<lambda>(off, len) i. i - off) w A'"
    using bcast_index_in_range [OF in_window_in_range [OF iw]] .
  then show ?thesis
    by (simp add: A unsqueeze_def bcast_index_def)
qed

lemma read_squeeze:
  assumes "in_window ((c, 1) # w) A"
  shows "item (squeeze (deref s \<lparr>base = b, window = (c, 1) # w\<rparr>))
           (bcast_index (map snd w) (map2 (\<lambda>(off, len) i. i - off) w (tl A)))
       = item (s ! b) A"
proof -
  from window_cons [OF assms] obtain A' where A: "A = c # A'" and iw: "in_window w A'" by blast
  have "bcast_index (map snd w) (map2 (\<lambda>(off, len) i. i - off) w A') = map2 (\<lambda>(off, len) i. i - off) w A'"
    using bcast_index_in_range [OF in_window_in_range [OF iw]] .
  then show ?thesis
    using in_window_rebase [OF iw]
    by (simp add: A squeeze_def deref_def slice_tensor_def)
qed

lemma assign_maximum:
  assumes b: "list_all2 (\<lambda>a b. a = b \<or> a = 1) (shape new) (map snd w)"
  shows "\<exists>m. maximum new (squeeze (deref s \<lparr>base = b, window = (c, 1) # w\<rparr>)) = Some m
           \<and> assign_window (s ! b) ((c, 1) # w) (unsqueeze m) = Some (blend (\<lambda>v. v) c w new (s ! b))"
proof -
  let ?old = "squeeze (deref s \<lparr>base = b, window = (c, 1) # w\<rparr>)"
  let ?m = "\<lparr>shape = map snd w,
             item = (\<lambda>idx. flt_max (item new (bcast_index (shape new) idx)) (item ?old (bcast_index (map snd w) idx)))\<rparr>"
  have so: "shape ?old = map snd w"
    by (simp add: squeeze_def deref_def slice_tensor_def)
  have m: "maximum new ?old = Some ?m"
    using maximum_shape_conv [OF b] unfolding maximum_def so by simp
  have "assign_window (s ! b) ((c, 1) # w) (unsqueeze ?m) = Some (blend (\<lambda>v. v) c w new (s ! b))"
  proof -
    have sh: "shape (unsqueeze ?m) = 1 # map snd w" by (simp add: unsqueeze_def)
    have "(\<lambda>A. if in_window ((c, 1) # w) A
               then item (unsqueeze ?m) (bcast_index (1 # map snd w) (map2 (\<lambda>(off, len) i. i - off) ((c, 1) # w) A))
               else item (s ! b) A)
        = (\<lambda>A. if in_window ((c, 1) # w) A
               then flt_max (mask_at new w A) (item (s ! b) A)
               else item (s ! b) A)"
    proof
      fix A
      show "(if in_window ((c, 1) # w) A
               then item (unsqueeze ?m) (bcast_index (1 # map snd w) (map2 (\<lambda>(off, len) i. i - off) ((c, 1) # w) A))
               else item (s ! b) A)
          = (if in_window ((c, 1) # w) A
               then flt_max (mask_at new w A) (item (s ! b) A)
               else item (s ! b) A)"
      proof (cases "in_window ((c, 1) # w) A")
        case True
        show ?thesis
          using True read_unsqueeze [OF True, of ?m] read_squeeze [OF True, of s b]
          by (simp add: mask_at_def)
      next
        case False
        then show ?thesis by simp
      qed
    qed
    then show ?thesis
      unfolding assign_window_def sh blend_def
      by (simp add: broadcastable_def list_all2_same del: One_nat_def)
  qed
  with m show ?thesis by blast
qed


lemma read_squeeze_plain:
  assumes "in_window ((c, 1) # w) A"
  shows "item (squeeze (deref s \<lparr>base = b, window = (c, 1) # w\<rparr>)) (map2 (\<lambda>(off, len) i. i - off) w (tl A))
       = item (s ! b) A"
proof -
  from window_cons [OF assms] obtain A' where A: "A = c # A'" and iw: "in_window w A'" by blast
  show ?thesis
    using in_window_rebase [OF iw]
    by (simp add: A squeeze_def deref_def slice_tensor_def)
qed

lemma assign_threshold:
  "assign_window t ((c, 1) # w)
     (unsqueeze (map_tensor f (squeeze (deref s \<lparr>base = b, window = (c, 1) # w\<rparr>))))
   = Some (t\<lparr>item := (\<lambda>A. if in_window ((c, 1) # w) A then f (item (s ! b) A) else item t A)\<rparr>)"
proof -
  let ?src = "unsqueeze (map_tensor f (squeeze (deref s \<lparr>base = b, window = (c, 1) # w\<rparr>)))"
  have sh: "shape ?src = 1 # map snd w"
    by (simp add: unsqueeze_def map_tensor_def squeeze_def deref_def slice_tensor_def)
  have fn: "(\<lambda>A. if in_window ((c, 1) # w) A
               then item ?src (bcast_index (1 # map snd w) (map2 (\<lambda>(off, len) i. i - off) ((c, 1) # w) A))
               else item t A)
        = (\<lambda>A. if in_window ((c, 1) # w) A then f (item (s ! b) A) else item t A)"
  proof
    fix A
    show "(if in_window ((c, 1) # w) A
               then item ?src (bcast_index (1 # map snd w) (map2 (\<lambda>(off, len) i. i - off) ((c, 1) # w) A))
               else item t A)
        = (if in_window ((c, 1) # w) A then f (item (s ! b) A) else item t A)"
    proof (cases "in_window ((c, 1) # w) A")
      case True
      show ?thesis
        using True read_unsqueeze [OF True, of "map_tensor f (squeeze (deref s \<lparr>base = b, window = (c, 1) # w\<rparr>))"]
          read_squeeze_plain [OF True, of s b]
        by (simp add: map_tensor_def)
    next
      case False
      then show ?thesis by simp
    qed
  qed
  then show ?thesis
    unfolding assign_window_def sh
    by (simp add: broadcastable_def list_all2_same del: One_nat_def)
qed

lemma threshold_blend:
  "(blend (\<lambda>v. v) c w new t)\<lparr>item := (\<lambda>A. if in_window ((c, 1) # w) A
        then threshold True (item (blend (\<lambda>v. v) c w new t) A) else item (blend (\<lambda>v. v) c w new t) A)\<rparr>
   = blend (threshold True) c w new t"
  by (simp add: blend_def fun_eq_iff)

lemma composite_char:
  assumes w: "window patch = (c0, C) # w"
    and ch: "py_index channel C = Some ch"
    and b: "list_all2 (\<lambda>a b. a = b \<or> a = 1) (shape new) (map snd w)"
  shows "composite patch new binary channel s
       = Inr (s[base patch := blend (threshold binary) (c0 + ch) w new (s ! base patch)])"
proof -
  let ?b = "base patch"
  let ?target = "\<lparr>base = ?b, window = (c0 + ch, 1) # w\<rparr>"
  let ?t1 = "blend (\<lambda>v. v) (c0 + ch) w new (s ! ?b)"
  have tg: "\<And>s'. deref s' (patch\<lparr>window := (c0 + ch, 1) # w\<rparr>) = deref s' ?target"
    "\<And>s' x. store_assign s' (patch\<lparr>window := (c0 + ch, 1) # w\<rparr>) x = store_assign s' ?target x"
    by (simp_all add: deref_def store_assign_def split: option.split)
  from assign_maximum [OF b, of s ?b "c0 + ch"]
  obtain m where m: "maximum new (squeeze (deref s ?target)) = Some m"
    and a1: "assign_window (s ! ?b) ((c0 + ch, 1) # w) (unsqueeze m) = Some ?t1"
    by blast
  have s1: "store_assign s ?target (unsqueeze m) = Some (s[?b := ?t1])"
    by (simp add: store_assign_def a1 del: One_nat_def)
  have id: "threshold False = (\<lambda>v. v)"
    by (simp add: threshold_def fun_eq_iff)
  show ?thesis
  proof (cases binary)
    case False
    then show ?thesis
      unfolding composite_def w Let_def
      by (simp add: tg ch m s1 id del: One_nat_def)
  next
    case True
    have thr: "(\<lambda>v. if flt_less (Num (68 / 100)) v then Num 1 else Num 0) = threshold True"
      by (simp add: threshold_def fun_eq_iff)
    have s2: "store_assign (s[?b := ?t1]) ?target
                (unsqueeze (map_tensor (threshold True) (squeeze (deref (s[?b := ?t1]) ?target))))
              = Some (s[?b := blend (threshold True) (c0 + ch) w new (s ! ?b)])"
    proof (cases "?b < length s")
      case True
      then show ?thesis
        by (simp add: store_assign_def assign_threshold threshold_blend del: One_nat_def cong: if_cong)
    next
      case False
      then show ?thesis
        by (simp add: store_assign_def assign_threshold list_update_beyond del: One_nat_def)
    qed
    from True show ?thesis
      unfolding composite_def w Let_def thr
      by (simp add: tg ch m s1 s2 del: One_nat_def)
  qed
qed

lemma composite_conds:
  assumes "composite patch new binary channel s = Inr s'"
  shows "\<exists>c0 C w ch. window patch = (c0, C) # w \<and> py_index channel C = Some ch
           \<and> list_all2 (\<lambda>a b. a = b \<or> a = 1) (shape new) (map snd w)"
proof -
  from assms obtain c0 C w where w: "window patch = (c0, C) # w"
    by (cases "window patch") (auto simp add: composite_def)
  from assms w obtain ch where ch: "py_index channel C = Some ch"
    by (cases "py_index channel C") (auto simp add: composite_def)
  let ?target = "patch\<lparr>window := (c0 + ch, 1) # w\<rparr>"
  from assms w ch obtain m where m: "maximum new (squeeze (deref s ?target)) = Some m"
    by (cases "maximum new (squeeze (deref s ?target))") (auto simp add: composite_def Let_def)
  from assms w ch m obtain s1 where s1: "store_assign s ?target (unsqueeze m) = Some s1"
    by (cases "store_assign s ?target (unsqueeze m)") (auto simp add: composite_def Let_def)
  have so: "shape (squeeze (deref s ?target)) = map snd w"
    by (simp add: squeeze_def deref_def slice_tensor_def)
  from m have c1: "list_all2 (\<lambda>x y. x = y \<or> x = 1 \<or> y = 1) (shape new) (map snd w)"
    and sm: "shape m = map2 (\<lambda>x y. if x = 1 then y else x) (shape new) (map snd w)"
    unfolding maximum_def so by (auto split: if_splits)
  from s1 have "list_all2 (\<lambda>x y. x = y \<or> x = 1) (shape m) (map snd w)"
    by (auto simp add: store_assign_def assign_window_def broadcastable_def unsqueeze_def
        split: option.splits if_splits)
  with maximum_shape [OF c1] sm have "list_all2 (\<lambda>a b. a = b \<or> a = 1) (shape new) (map snd w)"
    by simp
  with w ch show ?thesis by blast
qed

lemma crop_view_store: "snd (crop self center radius False val n_dim s) = s"
  by (simp add: crop_def Let_def split: list.split)

lemma crop_view_shape:
  assumes "shape (s2 ! data self) = shape (s ! data self)"
  shows "crop self center radius False val n_dim s2 = (fst (crop self center radius False val n_dim s), s2)"
  using assms by (simp add: crop_def Let_def split: list.split)

lemma crop_view_base:
  assumes "crop self center radius False val n_dim s = (Inr (patch, padding), s')"
  shows "base patch = data self"
  using assms by (auto simp add: crop_def Let_def split: if_splits list.splits)

subsection \<open>What a draw changes\<close>

lemma crop_view_same:
  "crop self center radius False val n_dim s = (res, s') \<Longrightarrow> s' = s"
  using crop_view_store [of self center radius val n_dim s] by simp

lemma new_patch_store: "snd (new_patch gaussian nan_to_int self segment width n_dim s) = s"
  by (auto simp add: new_patch_def Let_def split: sum.splits prod.splits dest: crop_view_same)

lemma new_patch_crop:
  assumes "new_patch gaussian nan_to_int self segment width n_dim s = (Inr (patch, m), s1)"
  shows "s1 = s \<and> (\<exists>center patch_radius padding.
            crop self center patch_radius False (Num 0) n_dim s = (Inr (patch, padding), s))"
proof -
  from assms new_patch_store [of gaussian nan_to_int self segment width n_dim s] have s1: "s1 = s"
    by simp
  from assms obtain center patch_radius padding s2
    where "crop self center patch_radius False (Num 0) n_dim s = (Inr (patch, padding), s2)"
    by (auto simp add: new_patch_def Let_def split: sum.splits prod.splits if_splits)
  with crop_view_same [OF this] s1 show ?thesis by blast
qed

lemma new_patch_shape_only:
  assumes "shape (s2 ! data self) = shape (s ! data self)"
  shows "new_patch gaussian nan_to_int self segment width n_dim s2
       = (fst (new_patch gaussian nan_to_int self segment width n_dim s), s2)"
proof -
  have c: "\<And>center patch_radius. crop self center patch_radius False (Num 0) n_dim s2
      = (fst (crop self center patch_radius False (Num 0) n_dim s), s2)"
    by (rule crop_view_shape [OF assms])
  show ?thesis
    unfolding new_patch_def Let_def
    by (simp add: c split: sum.split prod.split)
qed


lemma draw_success:
  assumes "draw_line_segment gaussian nan_to_int self segment width binary channel n_dim s = (Inr (), s')"
  shows "\<exists>patch m. new_patch gaussian nan_to_int self segment width n_dim s = (Inr (patch, m), s)
           \<and> composite patch m binary channel s = Inr s'"
proof -
  obtain res s1 where n: "new_patch gaussian nan_to_int self segment width n_dim s = (res, s1)"
    by (cases "new_patch gaussian nan_to_int self segment width n_dim s")
  with new_patch_store [of gaussian nan_to_int self segment width n_dim s] have s1: "s1 = s" by simp
  from assms n obtain patch m where res: "res = Inr (patch, m)"
    by (cases res) (auto simp add: draw_line_segment_def)
  from assms n res s1 have "composite patch m binary channel s = Inr s'"
    by (cases "composite patch m binary channel s") (auto simp add: draw_line_segment_def)
  with n res s1 show ?thesis by blast
qed

lemma draw_failure:
  assumes "draw_line_segment gaussian nan_to_int self segment width binary channel n_dim s = (Inl e, s')"
  shows "s' = s"
proof -
  obtain res s1 where n: "new_patch gaussian nan_to_int self segment width n_dim s = (res, s1)"
    by (cases "new_patch gaussian nan_to_int self segment width n_dim s")
  with new_patch_store [of gaussian nan_to_int self segment width n_dim s] have s1: "s1 = s" by simp
  from assms n s1 show ?thesis
    by (auto simp add: draw_line_segment_def split: sum.splits prod.splits)
qed

lemma blend_shape: "shape (blend g c w new t) = shape t"
  by (simp add: blend_def)

lemma draw_effect:
  assumes d: "draw_line_segment gaussian nan_to_int self segment width binary channel n_dim s = (Inr (), s')"
    and n: "new_patch gaussian nan_to_int self segment width n_dim s = (Inr (patch, m), s1)"
  shows "\<exists>ch. py_index channel (hd (shape (s ! data self))) = Some ch
           \<and> list_all2 (\<lambda>a b. a = b \<or> a = 1) (shape m) (map snd (tl (window patch)))
           \<and> window patch = (0, hd (shape (s ! data self))) # tl (window patch)
           \<and> base patch = data self
           \<and> s' = s[data self := blend (threshold binary) ch (tl (window patch)) m (s ! data self)]"
proof -
  from new_patch_crop [OF n] obtain center patch_radius padding
    where s1: "s1 = s"
      and c: "crop self center patch_radius False (Num 0) n_dim s = (Inr (patch, padding), s)"
    by blast
  from draw_success [OF d] n s1 have k: "composite patch m binary channel s = Inr s'"
    by simp
  from composite_conds [OF k] obtain c0 C w ch
    where w: "window patch = (c0, C) # w" and ch: "py_index channel C = Some ch"
      and b: "list_all2 (\<lambda>a b. a = b \<or> a = 1) (shape m) (map snd w)"
    by blast
  from crop_view_window [OF c] w have c0: "c0 = 0" "C = hd (shape (s ! data self))"
    by simp_all
  from composite_char [OF w ch b, of binary s] k crop_view_base [OF c]
  have "s' = s[data self := blend (threshold binary) ch w m (s ! data self)]"
    by (simp add: c0)
  with ch c0 w b crop_view_base [OF c] show ?thesis by simp
qed





lemma threshold_twice_iff:
  "threshold b (flt_max n (threshold b (flt_max n v))) = threshold b (flt_max n v)
     \<longleftrightarrow> \<not> (b \<and> v = NaN \<and> flt_less (Num (68 / 100)) n)"
  by (cases n; cases v) (simp_all add: flt_max_def threshold_def)

lemma item_update_eq_iff: "t\<lparr>item := f\<rparr> = t\<lparr>item := g\<rparr> \<longleftrightarrow> f = g"
proof
  assume "t\<lparr>item := f\<rparr> = t\<lparr>item := g\<rparr>"
  then have "item (t\<lparr>item := f\<rparr>) = item (t\<lparr>item := g\<rparr>)" by (rule arg_cong)
  then show "f = g" by simp
next
  assume "f = g"
  then show "t\<lparr>item := f\<rparr> = t\<lparr>item := g\<rparr>" by simp
qed

lemma blend_twice:
  "blend g c w m (blend g c w m t)
     = t\<lparr>item := (\<lambda>A. if in_window ((c, 1) # w) A
                        then g (flt_max (mask_at m w A) (g (flt_max (mask_at m w A) (item t A))))
                        else item t A)\<rparr>"
  by (simp add: blend_def cong: if_cong)

lemma blend_twice_iff:
  "blend (threshold b) c w m (blend (threshold b) c w m t) = blend (threshold b) c w m t
     \<longleftrightarrow> (\<forall>A. in_window ((c, 1) # w) A \<longrightarrow>
            \<not> (b \<and> item t A = NaN \<and> flt_less (Num (68 / 100)) (mask_at m w A)))"
proof -
  have "blend (threshold b) c w m (blend (threshold b) c w m t) = blend (threshold b) c w m t
     \<longleftrightarrow> (\<forall>A. in_window ((c, 1) # w) A \<longrightarrow>
            threshold b (flt_max (mask_at m w A) (threshold b (flt_max (mask_at m w A) (item t A))))
              = threshold b (flt_max (mask_at m w A) (item t A)))"
    unfolding blend_twice
    unfolding blend_def item_update_eq_iff fun_eq_iff
    by auto
  then show ?thesis
    by (simp only: threshold_twice_iff)
qed

lemma draw_again:
  assumes d: "draw_line_segment gaussian nan_to_int self segment width binary channel n_dim s = (Inr (), s')"
    and n: "new_patch gaussian nan_to_int self segment width n_dim s = (Inr (patch, m), s1)"
  shows "\<exists>ch. py_index channel (hd (shape (s ! data self))) = Some ch
           \<and> s' = s[data self := blend (threshold binary) ch (tl (window patch)) m (s ! data self)]
           \<and> draw_line_segment gaussian nan_to_int self segment width binary channel n_dim s'
               = (Inr (), s[data self := blend (threshold binary) ch (tl (window patch)) m
                                           (blend (threshold binary) ch (tl (window patch)) m (s ! data self))])"
proof -
  let ?w = "tl (window patch)"
  from draw_effect [OF d n] obtain ch
    where ch: "py_index channel (hd (shape (s ! data self))) = Some ch"
      and b: "list_all2 (\<lambda>a b. a = b \<or> a = 1) (shape m) (map snd ?w)"
      and w: "window patch = (0, hd (shape (s ! data self))) # ?w"
      and bp: "base patch = data self"
      and s': "s' = s[data self := blend (threshold binary) ch ?w m (s ! data self)]"
    by blast
  from new_patch_crop [OF n] have s1: "s1 = s" by simp
  have sh: "shape (s' ! data self) = shape (s ! data self)"
    by (cases "data self < length s") (simp_all add: s' blend_shape list_update_beyond)
  from new_patch_shape_only [OF sh, of gaussian nan_to_int segment width n_dim] n
  have n': "new_patch gaussian nan_to_int self segment width n_dim s' = (Inr (patch, m), s')"
    by simp
  have "s'[data self := blend (threshold binary) ch ?w m (s' ! data self)]
      = s[data self := blend (threshold binary) ch ?w m (blend (threshold binary) ch ?w m (s ! data self))]"
    by (cases "data self < length s") (simp_all add: s' list_update_beyond)
  with composite_char [OF w ch b, of binary s']
  have k': "composite patch m binary channel s'
      = Inr (s[data self := blend (threshold binary) ch ?w m (blend (threshold binary) ch ?w m (s ! data self))])"
    by (simp add: bp)
  have "draw_line_segment gaussian nan_to_int self segment width binary channel n_dim s'
      = (Inr (), s[data self := blend (threshold binary) ch ?w m (blend (threshold binary) ch ?w m (s ! data self))])"
    by (simp add: draw_line_segment_def n' k')
  with ch s' show ?thesis by blast
qed

lemma list_update_eq_iff: "i < length xs \<Longrightarrow> xs[i := a] = xs[i := b] \<longleftrightarrow> a = b"
  by (metis nth_list_update_eq)

subsection \<open>Drawing the same segment twice\<close>

text \<open>
  Claim C7, amended: when a \<open>draw_line_segment\<close> call has returned, a second call with
  the same segment, width, channel and binary flag on the buffer that the first call left
  returns and leaves the buffer unchanged, unless \<open>binary\<close> is set and some voxel of the
  region of the channel that the patch covers held NaN before the first call where the
  mask is above 0.68; in that case the second call changes the buffer. \<open>patch\<close> and \<open>m\<close>
  are the view and the normalised mask of the call.
\<close>

theorem draw_twice_same_iff:
  assumes d: "draw_line_segment gaussian nan_to_int self segment width binary channel n_dim s = (Inr (), s')"
    and n: "new_patch gaussian nan_to_int self segment width n_dim s = (Inr (patch, m), s1)"
    and valid: "data self < length s"
  shows "draw_line_segment gaussian nan_to_int self segment width binary channel n_dim s' = (Inr (), s')
     \<longleftrightarrow> \<not> (binary \<and> (\<exists>c idx. py_index channel (hd (shape (s ! data self))) = Some c
                            \<and> in_window ((c, 1) # tl (window patch)) idx
                            \<and> item (s ! data self) idx = NaN
                            \<and> flt_less (Num (68 / 100)) (mask_at m (tl (window patch)) idx)))"
proof -
  let ?w = "tl (window patch)"
  from draw_again [OF d n] obtain ch
    where ch: "py_index channel (hd (shape (s ! data self))) = Some ch"
      and s': "s' = s[data self := blend (threshold binary) ch ?w m (s ! data self)]"
      and d': "draw_line_segment gaussian nan_to_int self segment width binary channel n_dim s'
               = (Inr (), s[data self := blend (threshold binary) ch ?w m
                                           (blend (threshold binary) ch ?w m (s ! data self))])"
    by blast
  have "draw_line_segment gaussian nan_to_int self segment width binary channel n_dim s' = (Inr (), s')
      \<longleftrightarrow> blend (threshold binary) ch ?w m (blend (threshold binary) ch ?w m (s ! data self))
            = blend (threshold binary) ch ?w m (s ! data self)"
    unfolding d' by (simp add: s' list_update_eq_iff [OF valid])
  also have "\<dots> \<longleftrightarrow> (\<forall>A. in_window ((ch, 1) # ?w) A \<longrightarrow>
            \<not> (binary \<and> item (s ! data self) A = NaN \<and> flt_less (Num (68 / 100)) (mask_at m ?w A)))"
    by (rule blend_twice_iff)
  also have "\<dots> \<longleftrightarrow> \<not> (binary \<and> (\<exists>c idx. py_index channel (hd (shape (s ! data self))) = Some c
                            \<and> in_window ((c, 1) # ?w) idx
                            \<and> item (s ! data self) idx = NaN
                            \<and> flt_less (Num (68 / 100)) (mask_at m ?w idx)))"
    using ch by auto
  finally show ?thesis .
qed

subsection \<open>Intensities under a sequence of draws\<close>


lemma composite_last_channel:
  assumes "window patch = (c0, C) # w" "0 < C"
  shows "composite patch new binary default_channel s = composite patch new binary (int C - 1) s"
  using assms by (simp add: composite_def default_channel_def py_index_def)

lemma draw_channel_cong:
  assumes "\<And>patch m s'.
             new_patch gaussian nan_to_int self segment width n_dim s = (Inr (patch, m), s') \<Longrightarrow>
             composite patch m binary ch1 s' = composite patch m binary ch2 s'"
  shows "draw_line_segment gaussian nan_to_int self segment width binary ch1 n_dim s
       = draw_line_segment gaussian nan_to_int self segment width binary ch2 n_dim s"
  using assms
  by (auto simp add: draw_line_segment_def split: sum.splits prod.splits)

subsection \<open>The default channel\<close>

text \<open>
  Claim C10: without a \<open>channel\<close> argument the channel is \<open>-1\<close>, and the call composites
  into (and thresholds) the last channel of the buffer. On a buffer of \<open>C > 0\<close> channels
  the call does what the call with channel \<open>C - 1\<close> does; when it returns, the buffer is
  the one before the call with, in channel \<open>C - 1\<close> and inside the region of the view, every
  voxel replaced by the maximum of the mask and of what it held (thresholded when
  \<open>binary\<close> is set); and every other channel is as it was.
\<close>

theorem draw_default_channel_is_last:
  assumes sh: "shape (s ! data self) = C # sp" and C: "0 < C"
  shows "draw_line_segment gaussian nan_to_int self segment width binary default_channel n_dim s
           = draw_line_segment gaussian nan_to_int self segment width binary (int C - 1) n_dim s
       \<and> (\<forall>patch m s1 s'.
             new_patch gaussian nan_to_int self segment width n_dim s = (Inr (patch, m), s1) \<longrightarrow>
             draw_line_segment gaussian nan_to_int self segment width binary default_channel n_dim s = (Inr (), s') \<longrightarrow>
             s' = s[data self := blend (threshold binary) (C - 1) (tl (window patch)) m (s ! data self)])
       \<and> (\<forall>c idx. c \<noteq> C - 1 \<longrightarrow>
             item (snd (draw_line_segment gaussian nan_to_int self segment width binary default_channel n_dim s)
                     ! data self) (c # idx)
               = item (s ! data self) (c # idx))"
proof (intro conjI allI impI)
  show "draw_line_segment gaussian nan_to_int self segment width binary default_channel n_dim s
           = draw_line_segment gaussian nan_to_int self segment width binary (int C - 1) n_dim s"
  proof (rule draw_channel_cong)
    fix patch m s'
    assume n: "new_patch gaussian nan_to_int self segment width n_dim s = (Inr (patch, m), s')"
    from new_patch_crop [OF n] obtain center patch_radius padding
      where c: "crop self center patch_radius False (Num 0) n_dim s = (Inr (patch, padding), s)"
      by blast
    from crop_view_window [OF c] sh obtain w where "window patch = (0, C) # w" by simp
    from composite_last_channel [OF this C]
    show "composite patch m binary default_channel s' = composite patch m binary (int C - 1) s'" .
  qed
next
  fix patch m s1 s'
  assume n: "new_patch gaussian nan_to_int self segment width n_dim s = (Inr (patch, m), s1)"
    and d: "draw_line_segment gaussian nan_to_int self segment width binary default_channel n_dim s = (Inr (), s')"
  from draw_effect [OF d n] obtain ch
    where ch: "py_index default_channel (hd (shape (s ! data self))) = Some ch"
      and s': "s' = s[data self := blend (threshold binary) ch (tl (window patch)) m (s ! data self)]"
    by blast
  from ch sh C have "ch = C - 1"
    by (auto simp add: py_index_def default_channel_def split: if_splits)
  with s' show "s' = s[data self := blend (threshold binary) (C - 1) (tl (window patch)) m (s ! data self)]"
    by simp
next
  fix c idx
  assume ne: "c \<noteq> C - 1"
  obtain res s' where d: "draw_line_segment gaussian nan_to_int self segment width binary default_channel n_dim s = (res, s')"
    by (cases "draw_line_segment gaussian nan_to_int self segment width binary default_channel n_dim s")
  have "item (s' ! data self) (c # idx) = item (s ! data self) (c # idx)"
  proof (cases res)
    case (Inl e)
    with d draw_failure have "s' = s" by blast
    then show ?thesis by simp
  next
    case (Inr u)
    with d have d': "draw_line_segment gaussian nan_to_int self segment width binary default_channel n_dim s = (Inr (), s')"
      by simp
    from draw_success [OF d'] obtain patch m
      where n: "new_patch gaussian nan_to_int self segment width n_dim s = (Inr (patch, m), s)"
      by blast
    from draw_effect [OF d' n] obtain ch
      where ch: "py_index default_channel (hd (shape (s ! data self))) = Some ch"
        and s': "s' = s[data self := blend (threshold binary) ch (tl (window patch)) m (s ! data self)]"
      by blast
    from ch sh C have "ch = C - 1"
      by (auto simp add: py_index_def default_channel_def split: if_splits)
    with ne show ?thesis
      by (cases "data self < length s") (auto simp add: s' blend_def in_window_def list_update_beyond)
  qed
  then show "item (snd (draw_line_segment gaussian nan_to_int self segment width binary default_channel n_dim s)
                     ! data self) (c # idx)
               = item (s ! data self) (c # idx)"
    unfolding d snd_conv .
qed

lemma zero_length_index_error:
  assumes nd: "n_dim = 2 \<or> n_dim = 3"
    and lp: "length p = nat n_dim"
    and ov: "0 \<le> py_int (2 * width)"
    and k: "nan_to_int < - (2 * py_int (2 * width) + 1) \<or> 2 * py_int (2 * width) + 1 \<le> nan_to_int"
  shows "draw_line_segment gaussian nan_to_int self (p, p) width binary channel n_dim s = (Inl IndexError, s)"
proof -
  have py: "py_index nan_to_int (nat (2 * py_int (2 * width) + 1)) = None"
    using ov k by (auto simp add: py_index_def)
  have "rasterize nan_to_int (p, p) width n_dim = Inl IndexError"
    using nd
  proof
    assume n2: "n_dim = 2"
    with lp obtain a b where p: "p = [a, b]"
      by (auto simp add: length_Suc_conv numeral_2_eq_2)
    have e: "line_ends nan_to_int ([a, b], [a, b]) width 2
        = (py_int (2 * width), [nan_to_int, nan_to_int], [nan_to_int, nan_to_int])"
      by (simp add: line_ends_def numeral_2_eq_2)
    have l: "line_nd [nan_to_int, nan_to_int] [nan_to_int, nan_to_int] = [[nan_to_int, nan_to_int]]"
      by (simp add: line_nd_def)
    show ?thesis
      using ov by (simp add: rasterize_def e l index_put_def full_def py p n2 numeral_2_eq_2)
  next
    assume n3: "n_dim = 3"
    with lp obtain a b c where p: "p = [a, b, c]"
      by (auto simp add: length_Suc_conv numeral_3_eq_3)
    have e: "line_ends nan_to_int ([a, b, c], [a, b, c]) width 3
        = (py_int (2 * width), [nan_to_int, nan_to_int, nan_to_int], [nan_to_int, nan_to_int, nan_to_int])"
      by (simp add: line_ends_def numeral_3_eq_3)
    have l: "line_nd [nan_to_int, nan_to_int, nan_to_int] [nan_to_int, nan_to_int, nan_to_int]
        = [[nan_to_int, nan_to_int, nan_to_int]]"
      by (simp add: line_nd_def)
    show ?thesis
      using ov by (simp add: rasterize_def e l index_put_def full_def py p n3 numeral_3_eq_3)
  qed
  then show ?thesis
    by (simp add: draw_line_segment_def new_patch_def)
qed

subsection \<open>The model on concrete segments\<close>

lemma sqrt_100: "sqrt 100 = 10"
  using real_sqrt_abs [of 10] by simp

lemma sqrt_16: "sqrt 16 = 4"
  using real_sqrt_abs [of 4] by simp

lemma ceiling_half: "\<lceil>1 / 2 :: real\<rceil> = 1"
  by (rule ceiling_unique) simp_all

lemma ends_short: "line_ends nan_to_int ([a, 3], [a, 4]) 1 2 = (3, [3, 2], [3, 4])"
  by (simp add: line_ends_def py_int_def round_half_even_def numeral_2_eq_2 ceiling_half)

lemma line_short: "line_nd [3, 2] [3, 4] = [[3, 2], [3, 3], [3, 4]]"
  by code_simp

lemma rasterize_short:
  "rasterize nan_to_int ([a, 3], [a, 4]) 1 2
     = Inr ((full [7, 7] 0)\<lparr>item := (\<lambda>idx. if idx \<in> set [[3, 2], [3, 3], [3, 4]] then 1 else 0)\<rparr>, [a, 7 / 2], 3)"
  by (simp add: rasterize_def ends_short line_short index_put_def full_def py_index_def numeral_2_eq_2 cong: if_cong)

lemma all_indices_set: "set (all_indices sh) = {idx. list_all2 (\<lambda>i n. i < n) idx sh}"
proof (induction sh)
  case Nil
  then show ?case by simp
next
  case (Cons n ns)
  show ?case
  proof (rule set_eqI)
    fix idx
    show "idx \<in> set (all_indices (n # ns)) \<longleftrightarrow> idx \<in> {idx. list_all2 (\<lambda>i n. i < n) idx (n # ns)}"
      using Cons by (cases idx) auto
  qed
qed

lemma normalised_by_maximum:
  assumes mem: "list_all2 (\<lambda>i n. i < n) idx (shape t)" and top: "item t idx = M"
    and le: "\<And>i. list_all2 (\<lambda>i n. i < n) i (shape t) \<Longrightarrow> item t i \<le> M"
  shows "normalised t = Inr \<lparr>shape = shape t, item = (\<lambda>i. flt_div (item t i) M)\<rparr>"
proof -
  let ?vals = "set (map (item t) (all_indices (shape t)))"
  from mem have m: "idx \<in> set (all_indices (shape t))"
    by (simp add: all_indices_set)
  then have ne: "all_indices (shape t) \<noteq> []" by auto
  have "Max ?vals = M"
  proof (rule Max_eqI)
    show "finite ?vals" by simp
    show "M \<in> ?vals" using m top by auto
    fix y assume "y \<in> ?vals"
    then show "y \<le> M" using le by (auto simp add: all_indices_set)
  qed
  then show ?thesis
    using ne by (simp add: normalised_def)
qed

lemma rasterize_short_line:
  "rasterize nan_to_int ([a, 3], [a, 4]) 1 2 = Inr (short_line, [a, 7 / 2], 3)"
  by (rule rasterize_short)

lemma crop_inside:
  assumes "shape t = [C, 7, 7]"
  shows "crop \<lparr>data = 0, dx = [1, 1]\<rparr> [3, 7 / 2] 3 False val 2 [t]
     = (Inr (\<lparr>base = 0, window = [(0, C), (0, 7), (0, 7)]\<rparr>, [0, 0, 0, 0]), [t])"
  using assms
  by (simp add: crop2_view [where C = C and ?n0.0 = 7 and ?n1.0 = 7] py_int_def
      pad_before_def pad_after_def valid_low_def valid_high_def py_slice_def slice_index_def)

lemma crop_border:
  assumes "shape t = [C, 7, 7]"
  shows "crop \<lparr>data = 0, dx = [1, 1]\<rparr> [- 3, 7 / 2] 3 False val 2 [t]
     = (Inr (\<lparr>base = 0, window = [(0, C), (0, 1), (0, 7)]\<rparr>, [6, 0, 0, 0]), [t])"
  using assms
  by (simp add: crop2_view [where C = C and ?n0.0 = 7 and ?n1.0 = 7] py_int_def
      pad_before_def pad_after_def valid_low_def valid_high_def py_slice_def slice_index_def)

lemma trim_inside: "trim short_line [0, 0, 0, 0] 2 = Inr short_mask"
proof -
  let ?S = "slice_tensor [(0, 7), (0, 7)] short_line"
  have t: "trim short_line [0, 0, 0, 0] 2 = normalised ?S"
    by (simp add: trim_def full_def py_slice_def slice_index_def)
  have sh: "shape ?S = [7, 7]" by (simp add: slice_tensor_def)
  have "normalised ?S = Inr \<lparr>shape = shape ?S, item = (\<lambda>i. flt_div (item ?S i) 1)\<rparr>"
  proof (rule normalised_by_maximum [where idx = "[3, 3]"])
    show "list_all2 (\<lambda>i n. i < n) [3, 3] (shape ?S)" unfolding sh by simp
    show "item ?S [3, 3] = 1" by (simp add: slice_tensor_def full_def)
    fix i
    show "item ?S i \<le> 1" by (simp add: slice_tensor_def full_def)
  qed
  then show ?thesis
    unfolding t sh .
qed

lemma trim_border: "trim short_line [6, 0, 0, 0] 2 = Inr border_mask"
proof -
  let ?S = "slice_tensor [(6, 1), (0, 7)] short_line"
  have t: "trim short_line [6, 0, 0, 0] 2 = normalised ?S"
    by (simp add: trim_def full_def py_slice_def slice_index_def)
  have sh: "shape ?S = [1, 7]" by (simp add: slice_tensor_def)
  have z: "\<And>i. item ?S i = 0 \<or> hd i \<noteq> 0"
    by (case_tac i) (auto simp add: slice_tensor_def full_def)
  have "normalised ?S = Inr \<lparr>shape = shape ?S, item = (\<lambda>i. flt_div (item ?S i) 0)\<rparr>"
  proof (rule normalised_by_maximum [where idx = "[0, 0]"])
    show "list_all2 (\<lambda>i n. i < n) [0, 0] (shape ?S)" unfolding sh by simp
    show "item ?S [0, 0] = 0" by (simp add: slice_tensor_def full_def)
    fix i
    assume "list_all2 (\<lambda>i n. i < n) i (shape ?S)"
    then have "hd i = 0" unfolding sh by (cases i) auto
    with z [of i] show "item ?S i \<le> 0" by auto
  qed
  then show ?thesis
    unfolding t sh .
qed

lemma new_patch_inside:
  assumes "shape t = [C, 7, 7]"
  shows "new_patch no_blur nan_to_int \<lparr>data = 0, dx = [1, 1]\<rparr> ([3, 3], [3, 4]) 1 2 [t]
       = (Inr (\<lparr>base = 0, window = [(0, C), (0, 7), (0, 7)]\<rparr>, short_mask), [t])"
proof -
  have x: "short_line\<lparr>item := no_blur short_line [1 / 2, 1 / 2]\<rparr> = short_line"
    by (simp add: no_blur_def)
  show ?thesis
    unfolding new_patch_def rasterize_short_line
    by (simp add: x crop_inside [OF assms] trim_inside del: set_simps One_nat_def)
qed

lemma new_patch_border:
  assumes "shape t = [C, 7, 7]"
  shows "new_patch no_blur nan_to_int \<lparr>data = 0, dx = [1, 1]\<rparr> ([- 3, 3], [- 3, 4]) 1 2 [t]
       = (Inr (\<lparr>base = 0, window = [(0, C), (0, 1), (0, 7)]\<rparr>, border_mask), [t])"
proof -
  have x: "short_line\<lparr>item := no_blur short_line [1 / 2, 1 / 2]\<rparr> = short_line"
    by (simp add: no_blur_def)
  show ?thesis
    unfolding new_patch_def rasterize_short_line
    by (simp add: x crop_border [OF assms] trim_border del: set_simps One_nat_def)
qed

lemma draw_inside:
  assumes sh: "shape t = [C, 7, 7]" and ch: "py_index channel C = Some ch"
  shows "draw_line_segment no_blur nan_to_int \<lparr>data = 0, dx = [1, 1]\<rparr> ([3, 3], [3, 4]) 1 binary channel 2 [t]
       = (Inr (), [blend (threshold binary) ch [(0, 7), (0, 7)] short_mask t])"
proof -
  have k: "composite \<lparr>base = 0, window = [(0, C), (0, 7), (0, 7)]\<rparr> short_mask binary channel [t]
         = Inr [blend (threshold binary) ch [(0, 7), (0, 7)] short_mask t]"
    using composite_char [of "\<lparr>base = 0, window = [(0, C), (0, 7), (0, 7)]\<rparr>" 0 C "[(0, 7), (0, 7)]"
        channel ch short_mask binary "[t]"] ch
    by simp
  show ?thesis
    unfolding draw_line_segment_def new_patch_inside [OF sh]
    by (simp add: k del: set_simps One_nat_def)
qed

lemma draw_border:
  assumes sh: "shape t = [C, 7, 7]" and ch: "py_index channel C = Some ch"
  shows "draw_line_segment no_blur nan_to_int \<lparr>data = 0, dx = [1, 1]\<rparr> ([- 3, 3], [- 3, 4]) 1 binary channel 2 [t]
       = (Inr (), [blend (threshold binary) ch [(0, 1), (0, 7)] border_mask t])"
proof -
  have k: "composite \<lparr>base = 0, window = [(0, C), (0, 1), (0, 7)]\<rparr> border_mask binary channel [t]
         = Inr [blend (threshold binary) ch [(0, 1), (0, 7)] border_mask t]"
    using composite_char [of "\<lparr>base = 0, window = [(0, C), (0, 1), (0, 7)]\<rparr>" 0 C "[(0, 1), (0, 7)]"
        channel ch border_mask binary "[t]"] ch
    by simp
  show ?thesis
    unfolding draw_line_segment_def new_patch_border [OF sh]
    by (simp add: k del: set_simps One_nat_def)
qed

lemma blend_item_in:
  "in_window ((c, 1) # w) A \<Longrightarrow> item (blend g c w new t) A = g (flt_max (mask_at new w A) (item t A))"
  by (simp add: blend_def)


lemma short_mask_on_line: "mask_at short_mask [(0, 7), (0, 7)] [c, 3, 3] = Num 1"
  by (simp add: mask_at_def bcast_index_def slice_tensor_def full_def flt_div_def)


lemma border_mask_nan: "mask_at border_mask [(0, 1), (0, 7)] [c, 0, 0] = NaN"
  by (simp add: mask_at_def bcast_index_def slice_tensor_def full_def flt_div_def)

text \<open>
  A call whose trimmed mask is all zero returns, and writes: the segment from (-3,3) to
  (-3,4) lies three rows before a 1x7x7 buffer, the view is row 0 of the buffer, the part
  of the working buffer over it is its last row, which the line does not reach. The
  quotient \<open>0/0\<close> is NaN, and a voxel of row 0 that held 0.9 holds NaN after the call with
  \<open>binary=False\<close> and 0.0 after the call with \<open>binary=True\<close>.
\<close>

lemma zero_mask_call_writes:
  "draw_line_segment no_blur 0 \<lparr>data = 0, dx = [1, 1]\<rparr> ([- 3, 3], [- 3, 4]) 1 False 0 2 [full [1, 7, 7] (Num (9 / 10))]
     = (Inr (), [blend (threshold False) 0 [(0, 1), (0, 7)] border_mask (full [1, 7, 7] (Num (9 / 10)))])
   \<and> item (blend (threshold False) 0 [(0, 1), (0, 7)] border_mask (full [1, 7, 7] (Num (9 / 10)))) [0, 0, 0] = NaN
   \<and> draw_line_segment no_blur 0 \<lparr>data = 0, dx = [1, 1]\<rparr> ([- 3, 3], [- 3, 4]) 1 True 0 2 [full [1, 7, 7] (Num (9 / 10))]
     = (Inr (), [blend (threshold True) 0 [(0, 1), (0, 7)] border_mask (full [1, 7, 7] (Num (9 / 10)))])
   \<and> item (blend (threshold True) 0 [(0, 1), (0, 7)] border_mask (full [1, 7, 7] (Num (9 / 10)))) [0, 0, 0] = Num 0"
proof -
  have sh: "shape (full [1, 7, 7] (Num (9 / 10))) = [1, 7, 7]" by (simp add: full_def)
  have ch: "py_index 0 1 = Some 0" by (simp add: py_index_def)
  have iw: "in_window [(0, 1), (0, 1), (0, 7)] [0, 0, 0]" by (simp add: in_window_def)
  have "item (blend (threshold False) 0 [(0, 1), (0, 7)] border_mask (full [1, 7, 7] (Num (9 / 10)))) [0, 0, 0] = NaN"
    unfolding blend_item_in [OF iw] border_mask_nan by (simp add: flt_max_def threshold_def)
  moreover have "item (blend (threshold True) 0 [(0, 1), (0, 7)] border_mask (full [1, 7, 7] (Num (9 / 10)))) [0, 0, 0] = Num 0"
    unfolding blend_item_in [OF iw] border_mask_nan by (simp add: flt_max_def threshold_def)
  ultimately show ?thesis
    using draw_border [OF sh ch, of 0 False] draw_border [OF sh ch, of 0 True] by simp
qed



text \<open>
  Claim C7 says that the second of two identical calls leaves the buffer unchanged. On a
  1x7x7 buffer of zeros that holds NaN at the voxel (0,3,3), on the line, the first call
  with \<open>binary=True\<close> leaves 0.0 there (the maximum with NaN is NaN, and NaN is not above
  the threshold), and the second call turns it into 1.0.
\<close>

theorem draw_twice_nan_counterexample:
  "fst (draw_line_segment no_blur 0 \<lparr>data = 0, dx = [1, 1]\<rparr> ([3, 3], [3, 4]) 1 True 0 2
          [\<lparr>shape = [1, 7, 7], item = (\<lambda>idx. if idx = [0, 3, 3] then NaN else Num 0)\<rparr>]) = Inr ()
   \<and> item (snd (draw_line_segment no_blur 0 \<lparr>data = 0, dx = [1, 1]\<rparr> ([3, 3], [3, 4]) 1 True 0 2
          [\<lparr>shape = [1, 7, 7], item = (\<lambda>idx. if idx = [0, 3, 3] then NaN else Num 0)\<rparr>]) ! 0) [0, 3, 3] = Num 0
   \<and> item (snd (draw_line_segment no_blur 0 \<lparr>data = 0, dx = [1, 1]\<rparr> ([3, 3], [3, 4]) 1 True 0 2
          (snd (draw_line_segment no_blur 0 \<lparr>data = 0, dx = [1, 1]\<rparr> ([3, 3], [3, 4]) 1 True 0 2
             [\<lparr>shape = [1, 7, 7], item = (\<lambda>idx. if idx = [0, 3, 3] then NaN else Num 0)\<rparr>]))) ! 0) [0, 3, 3] = Num 1"
proof -
  let ?t = "\<lparr>shape = [1, 7, 7], item = (\<lambda>idx. if idx = [0, 3, 3] then NaN else Num 0)\<rparr>"
  let ?t1 = "blend (threshold True) 0 [(0, 7), (0, 7)] short_mask ?t"
  have sh: "shape ?t = [1, 7, 7]" by simp
  have sh1: "shape ?t1 = [1, 7, 7]" by (simp add: blend_shape)
  have ch: "py_index 0 1 = Some 0" by (simp add: py_index_def)
  have iw: "in_window [(0, 1), (0, 7), (0, 7)] [0, 3, 3]" by (simp add: in_window_def)
  have v1: "item ?t1 [0, 3, 3] = Num 0"
    unfolding blend_item_in [OF iw] short_mask_on_line by (simp add: flt_max_def threshold_def)
  have v2: "item (blend (threshold True) 0 [(0, 7), (0, 7)] short_mask ?t1) [0, 3, 3] = Num 1"
    unfolding blend_item_in [OF iw] short_mask_on_line v1 by (simp add: flt_max_def threshold_def)
  show ?thesis
    unfolding draw_inside [OF sh ch] snd_conv fst_conv nth_Cons_0 draw_inside [OF sh1 ch]
    using v1 v2 by simp
qed

text \<open>Claim C7, amended, on a 2x7x7 buffer of zeros, with \<open>binary=True\<close> and channel 0:
  the buffer holds no NaN, and the second call leaves it as the first call left it.\<close>

theorem draw_twice_same_iff_witness:
  "draw_line_segment no_blur 0 \<lparr>data = 0, dx = [1, 1]\<rparr> ([3, 3], [3, 4]) 1 True 0 2
     (snd (draw_line_segment no_blur 0 \<lparr>data = 0, dx = [1, 1]\<rparr> ([3, 3], [3, 4]) 1 True 0 2 [full [2, 7, 7] (Num 0)]))
   = (Inr (), snd (draw_line_segment no_blur 0 \<lparr>data = 0, dx = [1, 1]\<rparr> ([3, 3], [3, 4]) 1 True 0 2
                     [full [2, 7, 7] (Num 0)]))"
proof -
  let ?s = "[full [2, 7, 7] (Num 0)]"
  let ?s' = "[blend (threshold True) 0 [(0, 7), (0, 7)] short_mask (full [2, 7, 7] (Num 0))]"
  have sh: "shape (full [2, 7, 7] (Num 0)) = [2, 7, 7]" by (simp add: full_def)
  have ch: "py_index 0 2 = Some 0" by (simp add: py_index_def)
  have d: "draw_line_segment no_blur 0 \<lparr>data = 0, dx = [1, 1]\<rparr> ([3, 3], [3, 4]) 1 True 0 2 ?s = (Inr (), ?s')"
    by (rule draw_inside [OF sh ch])
  have n: "new_patch no_blur 0 \<lparr>data = 0, dx = [1, 1]\<rparr> ([3, 3], [3, 4]) 1 2 ?s
      = (Inr (\<lparr>base = 0, window = [(0, 2), (0, 7), (0, 7)]\<rparr>, short_mask), ?s)"
    by (rule new_patch_inside [OF sh])
  have valid: "data \<lparr>data = 0, dx = [1, 1]\<rparr> < length ?s" by simp
  have "draw_line_segment no_blur 0 \<lparr>data = 0, dx = [1, 1]\<rparr> ([3, 3], [3, 4]) 1 True 0 2 ?s' = (Inr (), ?s')"
    unfolding draw_twice_same_iff [OF d n valid] by (simp add: full_def)
  then show ?thesis
    unfolding d snd_conv .
qed

text \<open>Claim C10 on a 2x7x7 buffer of zeros: the call without a channel does what the call
  with channel 1 does, the voxel (1,3,3) of the last channel, on the line, holds 1.0
  after it, and the voxel (0,3,3) of the other channel holds its 0.0.\<close>

theorem draw_default_channel_is_last_witness:
  "draw_line_segment no_blur 0 \<lparr>data = 0, dx = [1, 1]\<rparr> ([3, 3], [3, 4]) 1 False default_channel 2 [full [2, 7, 7] (Num 0)]
     = draw_line_segment no_blur 0 \<lparr>data = 0, dx = [1, 1]\<rparr> ([3, 3], [3, 4]) 1 False 1 2 [full [2, 7, 7] (Num 0)]
   \<and> item (snd (draw_line_segment no_blur 0 \<lparr>data = 0, dx = [1, 1]\<rparr> ([3, 3], [3, 4]) 1 False default_channel 2
                   [full [2, 7, 7] (Num 0)]) ! 0) [1, 3, 3] = Num 1
   \<and> item (snd (draw_line_segment no_blur 0 \<lparr>data = 0, dx = [1, 1]\<rparr> ([3, 3], [3, 4]) 1 False default_channel 2
                   [full [2, 7, 7] (Num 0)]) ! 0) [0, 3, 3] = Num 0"
proof -
  let ?self = "\<lparr>data = 0, dx = [1, 1]\<rparr>"
  let ?s = "[full [2, 7, 7] (Num 0)]"
  have sh: "shape (?s ! data ?self) = 2 # [7, 7]" by (simp add: full_def)
  have pos: "(0::nat) < 2" by simp
  note t = draw_default_channel_is_last [OF sh pos, of no_blur 0 "([3, 3], [3, 4])" 1 False 2]
  from t have a: "draw_line_segment no_blur 0 ?self ([3, 3], [3, 4]) 1 False default_channel 2 ?s
     = draw_line_segment no_blur 0 ?self ([3, 3], [3, 4]) 1 False 1 2 ?s"
    by simp
  have shf: "shape (full [2, 7, 7] (Num 0)) = [2, 7, 7]" by (simp add: full_def)
  have ch: "py_index default_channel 2 = Some 1" by (simp add: py_index_def default_channel_def)
  obtain s' where d: "draw_line_segment no_blur 0 ?self ([3, 3], [3, 4]) 1 False default_channel 2 ?s = (Inr (), s')"
    using draw_inside [OF shf ch, of 0 False] by blast
  have n: "new_patch no_blur 0 ?self ([3, 3], [3, 4]) 1 2 ?s
      = (Inr (\<lparr>base = 0, window = [(0, 2), (0, 7), (0, 7)]\<rparr>, short_mask), ?s)"
    by (rule new_patch_inside [OF shf])
  from t n d have s': "s' = ?s[data ?self := blend (threshold False) (2 - 1) (tl (window \<lparr>base = 0, window = [(0, 2), (0, 7), (0, 7)]\<rparr>))
                                 short_mask (?s ! data ?self)]"
    by blast
  have iw: "in_window [(1, 1), (0, 7), (0, 7)] [1, 3, 3]" by (simp add: in_window_def)
  have "item (s' ! 0) [1, 3, 3] = item (blend (threshold False) 1 [(0, 7), (0, 7)] short_mask (full [2, 7, 7] (Num 0))) [1, 3, 3]"
    unfolding s' by simp
  also have "\<dots> = Num 1"
    unfolding blend_item_in [OF iw] short_mask_on_line by (simp add: flt_max_def threshold_def full_def)
  finally have b: "item (snd (draw_line_segment no_blur 0 ?self ([3, 3], [3, 4]) 1 False default_channel 2 ?s) ! 0) [1, 3, 3] = Num 1"
    unfolding d snd_conv .
  from t have "item (snd (draw_line_segment no_blur 0 ?self ([3, 3], [3, 4]) 1 False default_channel 2 ?s) ! data ?self) (0 # [3, 3])
      = item (?s ! data ?self) (0 # [3, 3])"
    by (elim conjE allE [where x = 0] allE [where x = "[3, 3]"] impE) simp_all
  then have c: "item (snd (draw_line_segment no_blur 0 ?self ([3, 3], [3, 4]) 1 False default_channel 2 ?s) ! 0) [0, 3, 3] = Num 0"
    by (simp add: full_def)
  from a b c show ?thesis by simp
qed

subsection \<open>A segment of length zero\<close>

text \<open>
  Claim C6 says that a call with two identical endpoints either raises
  InvalidSegmentError or draws the single voxel at the shared point, and fails with no
  other error. The source has no such error and no guard: the length is 0, the direction
  \<open>0/0\<close> is NaN, and both ends of the line are the integer that the cast of NaN gives. On
  x86-64 that is the smallest 64-bit integer: for the point (10,10,10) and width 1 on a
  3x21x21x21 buffer of zeros the write \<open>X[line] = 1.0\<close> into the working buffer of edge 5
  raises IndexError.
\<close>

theorem draw_zero_length_counterexample:
  "draw_line_segment no_blur (- 9223372036854775808) \<lparr>data = 0, dx = [1, 1, 1]\<rparr>
       ([10, 10, 10], [10, 10, 10]) 1 False 0 3 [full [3, 21, 21, 21] (Num 0)]
     = (Inl IndexError, [full [3, 21, 21, 21] (Num 0)])"
  by (rule zero_length_index_error) (simp_all add: py_int_def)

text \<open>
  Claim C6, amended: a call with two identical endpoints (of \<open>n_dim\<close> 2 or 3 coordinates,
  with a width for which \<open>int(2*width)\<close> is not negative) raises IndexError and leaves the
  buffer as it was, so that no NaN reaches it, whenever the integer that the cast of NaN
  gives is outside the index range \<open>[-P, P-1]\<close> of the working buffer, of edge
  \<open>P = 2*int(2*width)+1\<close>. On x86-64 the cast gives the smallest 64-bit integer.
\<close>

theorem draw_zero_length_raises:
  assumes "n_dim = 2 \<or> n_dim = 3"
    and "length p = nat n_dim"
    and "0 \<le> py_int (2 * width)"
    and "nan_to_int < - (2 * py_int (2 * width) + 1) \<or> 2 * py_int (2 * width) + 1 \<le> nan_to_int"
  shows "draw_line_segment gaussian nan_to_int self (p, p) width binary channel n_dim s = (Inl IndexError, s)"
  using assms by (rule zero_length_index_error)

theorem draw_zero_length_raises_witness:
  "draw_line_segment no_blur (- 9223372036854775808) \<lparr>data = 0, dx = [1, 1]\<rparr> ([3, 3], [3, 3]) (3 / 2) True 0 2
       [full [1, 7, 7] (Num 1)]
     = (Inl IndexError, [full [1, 7, 7] (Num 1)])"
  using draw_zero_length_raises [of 2 "[3, 3]" "3 / 2" "- 9223372036854775808" no_blur "\<lparr>data = 0, dx = [1, 1]\<rparr>" True 0
      "[full [1, 7, 7] (Num 1)]"]
  by (simp add: py_int_def)

subsection \<open>The ends of the rasterized line\<close>

lemma ends_axis: "line_ends nan_to_int ([10, 10, 5], [10, 10, 15]) 1 3 = (7, [7, 7, - 3], [7, 7, 17])"
  by (simp add: line_ends_def sqrt_100 py_int_def round_half_even_def numeral_3_eq_3)

lemma line_axis: "those (map (\<lambda>cell. those (map2 py_index cell [15, 15, 15])) (line_nd [7, 7, - 3] [7, 7, 17])) = None"
  by code_simp

text \<open>
  Claim C3: on a 3-channel 21x21x21 volume of zeros with unit spacing, the call with the
  segment from (10,10,5) to (10,10,15), width 1 and channel 0 completes and leaves the
  line as the voxels of maximal intensity. In the source the call does not complete: the
  working buffer has edge 15, the two ends of the line are put at the full length of the
  segment on each side of the center, at indices \<open>-3\<close> and 17 of the last axis, and the
  write at index 17 raises IndexError, whatever the buffer holds.
\<close>

theorem draw_axis_scenario_fails:
  "draw_line_segment gaussian nan_to_int self ([10, 10, 5], [10, 10, 15]) 1 binary 0 3 s = (Inl IndexError, s)"
proof -
  have "rasterize nan_to_int ([10, 10, 5], [10, 10, 15]) 1 3 = Inl IndexError"
    by (simp add: rasterize_def ends_axis index_put_def full_def line_axis numeral_3_eq_3)
  then show ?thesis
    by (simp add: draw_line_segment_def new_patch_def)
qed

lemma ends_plane: "line_ends nan_to_int ([0, 0], [0, 4]) (1 / 2) 2 = (3, [3, - 1], [3, 7])"
  by (simp add: line_ends_def sqrt_16 py_int_def round_half_even_def numeral_2_eq_2)

lemma line_plane: "those (map (\<lambda>cell. those (map2 py_index cell [7, 7])) (line_nd [3, - 1] [3, 7])) = None"
  by code_simp

text \<open>
  Claim C2: for every segment of positive length and positive width the working buffer
  contains both ends of the rasterized line, which lie at half the length of the segment
  on each side of the center. The source multiplies the unit direction by the whole
  length: for the segment from (0,0) to (0,4) with width 1/2 the buffer has radius 3 and
  edge 7, the ends are at columns \<open>-1\<close> and 7, and column 7 is outside the buffer.
\<close>

theorem line_end_outside_buffer:
  "line_ends nan_to_int ([0, 0], [0, 4]) (1 / 2) 2 = (3, [3, - 1], [3, 7])
   \<and> py_index 7 (nat (2 * 3 + 1)) = None
   \<and> rasterize nan_to_int ([0, 0], [0, 4]) (1 / 2) 2 = Inl IndexError"
proof -
  have "py_index 7 (nat (2 * 3 + 1)) = None"
    by (simp add: py_index_def)
  moreover have "rasterize nan_to_int ([0, 0], [0, 4]) (1 / 2) 2 = Inl IndexError"
    by (simp add: rasterize_def ends_plane index_put_def full_def line_plane numeral_2_eq_2)
  ultimately show ?thesis
    using ends_plane by simp
qed

end
